theory Spec2Isabelle
  imports Complex_Main "HOL-Library.Multiset" "HOL-Library.AList"
begin

section \<open>JavaScript values\<close>

text \<open>
  The helpers of the repository work on loosely shaped data: search results, triage
  decisions and API payloads. A value is one of the data values of the language. A number
  is an IEEE double: finite, one of the two infinities, or NaN; the finite ones are read as
  reals (the sources only compare numbers, subtract them to compare, and add small
  integers). A string is its UTF-8 byte sequence, so a character outside ASCII is a run of
  bytes from 0x80 upwards. An object is the list of its own enumerable properties, a
  \<open>Map\<close> the list of its entries and a \<open>Set\<close> the list of its members, each in
  insertion order. Function values, getters and proxies are not data and have no
  constructor.
\<close>

datatype jsnum = Fin real | PosInf | NegInf | NaN

datatype jsval =
    Undefined
  | Null
  | Bool bool
  | Num jsnum
  | Str string
  | Arr "jsval list"
  | Obj "(string \<times> jsval) list"
  | MapV "(jsval \<times> jsval) list"
  | SetV "jsval list"

datatype js_error = TypeError

text \<open>A call either throws or returns; \<open>bindE\<close> runs the rest after a call that returned.\<close>

definition bindE :: "js_error + 'a \<Rightarrow> ('a \<Rightarrow> js_error + 'b) \<Rightarrow> js_error + 'b" where
  "bindE r f = (case r of Inl e \<Rightarrow> Inl e | Inr v \<Rightarrow> f v)"

fun truthy :: "jsval \<Rightarrow> bool" where
  "truthy Undefined = False"
| "truthy Null = False"
| "truthy (Bool b) = b"
| "truthy (Num (Fin r)) = (r \<noteq> 0)"
| "truthy (Num NaN) = False"
| "truthy (Num PosInf) = True"
| "truthy (Num NegInf) = True"
| "truthy (Str s) = (s \<noteq> [])"
| "truthy (Arr xs) = True"
| "truthy (Obj kvs) = True"
| "truthy (MapV m) = True"
| "truthy (SetV s) = True"

text \<open>\<open>a || b\<close> and \<open>a ?? b\<close> on values already computed.\<close>

definition js_or :: "jsval \<Rightarrow> jsval \<Rightarrow> jsval" where
  "js_or a b = (if truthy a then a else b)"

definition nullish :: "jsval \<Rightarrow> bool" where
  "nullish v = (v = Undefined \<or> v = Null)"

definition js_coalesce :: "jsval \<Rightarrow> jsval \<Rightarrow> jsval" where
  "js_coalesce a b = (if nullish a then b else a)"

fun isArray :: "jsval \<Rightarrow> bool" where
  "isArray (Arr xs) = True"
| "isArray v = False"

text \<open>\<open>Number.isFinite\<close>: no coercion, so false on everything that is not a finite number.\<close>

fun isFinite :: "jsval \<Rightarrow> bool" where
  "isFinite (Num (Fin r)) = True"
| "isFinite v = False"

text \<open>
  \<open>field v k\<close> reads the property \<open>k\<close> of a value that is neither \<open>null\<close> nor
  \<open>undefined\<close>. The sources read fixed names only (\<open>title\<close>, \<open>size\<close>, \<open>status\<close>,
  ...), none of them a method of a prototype, so the own properties decide, with the
  \<open>length\<close> of arrays and the \<open>size\<close> of maps and sets.
\<close>

fun field :: "jsval \<Rightarrow> string \<Rightarrow> jsval" where
  "field (Obj kvs) k = (case map_of kvs k of Some v \<Rightarrow> v | None \<Rightarrow> Undefined)"
| "field (Arr xs) k = (if k = ''length'' then Num (Fin (real (length xs))) else Undefined)"
| "field (MapV m) k = (if k = ''size'' then Num (Fin (real (length m))) else Undefined)"
| "field (SetV s) k = (if k = ''size'' then Num (Fin (real (length s))) else Undefined)"
| "field v k = Undefined"

text \<open>\<open>v.k\<close> throws on \<open>null\<close> and \<open>undefined\<close>; \<open>v?.k\<close> yields \<open>undefined\<close> there.\<close>

definition get :: "jsval \<Rightarrow> string \<Rightarrow> js_error + jsval" where
  "get v k = (if nullish v then Inl TypeError else Inr (field v k))"

definition opt_get :: "jsval \<Rightarrow> string \<Rightarrow> jsval" where
  "opt_get v k = (if nullish v then Undefined else field v k)"

text \<open>\<open>a <= b\<close> on numbers: false as soon as one side is NaN.\<close>

fun num_le :: "jsnum \<Rightarrow> jsnum \<Rightarrow> bool" where
  "num_le NaN b = False"
| "num_le a NaN = False"
| "num_le NegInf b = True"
| "num_le a PosInf = True"
| "num_le (Fin a) (Fin b) = (a \<le> b)"
| "num_le a b = False"

text \<open>\<open>a < b\<close> on numbers: false as soon as one side is NaN.\<close>

fun num_lt :: "jsnum \<Rightarrow> jsnum \<Rightarrow> bool" where
  "num_lt NaN b = False"
| "num_lt a NaN = False"
| "num_lt a NegInf = False"
| "num_lt PosInf b = False"
| "num_lt (Fin a) (Fin b) = (a < b)"
| "num_lt a b = True"

text \<open>The two cases of the ASCII letters; every other character is left as it is.\<close>

definition asciiLower :: "char \<Rightarrow> char" where
  "asciiLower c =
     (case map_of (zip ''ABCDEFGHIJKLMNOPQRSTUVWXYZ'' ''abcdefghijklmnopqrstuvwxyz'') c of
        Some d \<Rightarrow> d | None \<Rightarrow> c)"

definition asciiUpper :: "char \<Rightarrow> char" where
  "asciiUpper c =
     (case map_of (zip ''abcdefghijklmnopqrstuvwxyz'' ''ABCDEFGHIJKLMNOPQRSTUVWXYZ'') c of
        Some d \<Rightarrow> d | None \<Rightarrow> c)"

section \<open>Result post-processor\<close>

subsection \<open>applyMaxSizeFilter\<close>

text \<open>
  The callback of the filter: \<open>size\<close> is read with \<open>?.\<close>, an element whose size is not a
  finite number is kept. The callback runs only when \<open>maxSizeBytes\<close> is a finite number.
\<close>

definition sizeWithinLimit :: "jsval \<Rightarrow> jsval \<Rightarrow> bool" where
  "sizeWithinLimit maxSizeBytes result =
     (let size = opt_get result ''size'' in
      \<not> isFinite size \<or>
      (case (size, maxSizeBytes) of (Num s, Num m) \<Rightarrow> num_le s m | _ \<Rightarrow> False))"

definition positiveFinite :: "jsval \<Rightarrow> bool" where
  "positiveFinite v = (case v of Num (Fin m) \<Rightarrow> 0 < m | _ \<Rightarrow> False)"

definition applyMaxSizeFilter :: "jsval \<Rightarrow> jsval \<Rightarrow> jsval" where
  "applyMaxSizeFilter results maxSizeBytes =
     (case results of
        Arr xs \<Rightarrow>
          (if \<not> isFinite maxSizeBytes \<or> \<not> positiveFinite maxSizeBytes then results
           else Arr (filter (sizeWithinLimit maxSizeBytes) xs))
      | _ \<Rightarrow> results)"

subsection \<open>The runtime and the collaborators\<close>

text \<open>
  The string methods of the language follow Unicode tables, and the conversions of a value
  to a string or to a number follow the number grammar of the language. They are taken as
  they come: every property below holds whatever functions the runtime supplies for them.
\<close>

record runtime =
  toLowerCase :: "string \<Rightarrow> string"
  toUpperCase :: "string \<Rightarrow> string"
  trim :: "string \<Rightarrow> string"
  normalizeNFKD :: "string \<Rightarrow> string"
  stringOfOther :: "jsval \<Rightarrow> string"
  numberOfOther :: "jsval \<Rightarrow> jsnum"
  encodeURIComponent :: "string \<Rightarrow> string"

text \<open>
  \<open>parseReleaseMetadata\<close> and \<open>normalizeReleaseTitle\<close> are imported from modules of the
  repository (\<open>../services/metadata/releaseParser\<close>, \<open>./parsers\<close>) and are parameters
  here. The parser's value is read through an object spread only, so it is given by its
  own enumerable properties.
\<close>

record parsers =
  parseReleaseMetadata :: "jsval \<Rightarrow> (string \<times> jsval) list"
  normalizeReleaseTitle :: "jsval \<Rightarrow> jsval"

text \<open>\<open>String(v)\<close>, also the conversion inside a template literal and \<open>RegExp.test\<close>.\<close>

definition js_String :: "runtime \<Rightarrow> jsval \<Rightarrow> string" where
  "js_String rt v =
     (case v of
        Str s \<Rightarrow> s
      | Undefined \<Rightarrow> ''undefined''
      | Null \<Rightarrow> ''null''
      | Bool b \<Rightarrow> (if b then ''true'' else ''false'')
      | _ \<Rightarrow> stringOfOther rt v)"

text \<open>The conversion of an operand of \<open>-\<close> and of \<open>Math.max\<close> to a number.\<close>

definition toNumber :: "runtime \<Rightarrow> jsval \<Rightarrow> jsnum" where
  "toNumber rt v =
     (case v of
        Undefined \<Rightarrow> NaN
      | Null \<Rightarrow> Fin 0
      | Bool b \<Rightarrow> (if b then Fin 1 else Fin 0)
      | Num n \<Rightarrow> n
      | _ \<Rightarrow> numberOfOther rt v)"

text \<open>
  \<open>v.toLowerCase()\<close>: a string has the method; on \<open>null\<close> and \<open>undefined\<close> the property
  read throws, on any other value the property is \<open>undefined\<close> and the call throws.
\<close>

definition call_toLowerCase :: "runtime \<Rightarrow> jsval \<Rightarrow> js_error + jsval" where
  "call_toLowerCase rt v = (case v of Str s \<Rightarrow> Inr (Str (toLowerCase rt s)) | _ \<Rightarrow> Inl TypeError)"

text \<open>
  \<open>a === b\<close>. Two primitives are equal when they are the same value, NaN apart. Two objects
  are equal when they are the same object: the values here carry no identity, and two
  objects read from two places are taken as two objects.
\<close>

fun strict_eq :: "jsval \<Rightarrow> jsval \<Rightarrow> bool" where
  "strict_eq Undefined Undefined = True"
| "strict_eq Null Null = True"
| "strict_eq (Bool a) (Bool b) = (a = b)"
| "strict_eq (Num a) (Num b) = (a \<noteq> NaN \<and> a = b)"
| "strict_eq (Str a) (Str b) = (a = b)"
| "strict_eq a b = False"

text \<open>
  \<open>a - b\<close> on numbers. On two finite doubles the difference is rounded, and is an infinity
  on overflow, but it keeps the sign of the real difference (and is zero only for equal
  operands); the comparators below are read for their sign alone.
\<close>

fun num_sub :: "jsnum \<Rightarrow> jsnum \<Rightarrow> jsnum" where
  "num_sub NaN b = NaN"
| "num_sub a NaN = NaN"
| "num_sub (Fin a) (Fin b) = Fin (a - b)"
| "num_sub (Fin a) PosInf = NegInf"
| "num_sub (Fin a) NegInf = PosInf"
| "num_sub PosInf PosInf = NaN"
| "num_sub PosInf b = PosInf"
| "num_sub NegInf NegInf = NaN"
| "num_sub NegInf b = NegInf"

subsection \<open>annotateNzbResult\<close>

text \<open>
  \<open>typeof v === 'object'\<close> holds of \<open>null\<close> and of every object. A spread \<open>...v\<close> in an
  object literal copies the own enumerable properties of an object: the properties of a
  plain object, the elements of an array under their indices, nothing of a map or a set.
  The literal assigns its properties in order, a later one replacing the value of an
  earlier one of the same name. The order in which an object lists its properties is not
  read anywhere in the sources.
\<close>

fun typeofObject :: "jsval \<Rightarrow> bool" where
  "typeofObject Null = True"
| "typeofObject (Arr xs) = True"
| "typeofObject (Obj kvs) = True"
| "typeofObject (MapV m) = True"
| "typeofObject (SetV s) = True"
| "typeofObject v = False"

fun decimal :: "nat \<Rightarrow> string" where
  "decimal n =
     (if n < 10 then [''0123456789'' ! n]
      else decimal (n div 10) @ [''0123456789'' ! (n mod 10)])"

definition spreadObject :: "jsval \<Rightarrow> (string \<times> jsval) list" where
  "spreadObject v =
     (case v of
        Obj kvs \<Rightarrow> kvs
      | Arr xs \<Rightarrow> zip (map decimal [0..<length xs]) xs
      | _ \<Rightarrow> [])"

definition objectLiteral :: "(string \<times> jsval) list \<Rightarrow> jsval" where
  "objectLiteral props = Obj (foldl (\<lambda>acc (k, v). AList.update k v acc) [] props)"

definition annotateNzbResult :: "parsers \<Rightarrow> jsval \<Rightarrow> jsval \<Rightarrow> jsval" where
  "annotateNzbResult ps result sortIndex =
     (if \<not> truthy result \<or> \<not> typeofObject result then result
      else
        (let sortIndex = (if sortIndex = Undefined then Num (Fin 0) else sortIndex);
             metadata = parseReleaseMetadata ps (js_or (field result ''title'') (Str []))
         in objectLiteral
              (spreadObject result @ metadata @
               [(''sortIndex'', sortIndex),
                (''normalizedTitle'', normalizeReleaseTitle ps (field result ''title''))])))"

text \<open>The metadata the parser returns for a result.\<close>

definition metadataOf :: "parsers \<Rightarrow> jsval \<Rightarrow> (string \<times> jsval) list" where
  "metadataOf ps result = parseReleaseMetadata ps (js_or (field result ''title'') (Str []))"

subsection \<open>resultMatchesPreferredLanguage\<close>

text \<open>The callback of \<open>languages.some\<close>, run until the first member that matches.\<close>

fun someLanguageMatches :: "runtime \<Rightarrow> jsval \<Rightarrow> jsval list \<Rightarrow> js_error + bool" where
  "someLanguageMatches rt normalized [] = Inr False"
| "someLanguageMatches rt normalized (lang # langs) =
     (if \<not> truthy lang then someLanguageMatches rt normalized langs
      else bindE (call_toLowerCase rt lang) (\<lambda>l.
        if strict_eq l normalized then Inr True
        else someLanguageMatches rt normalized langs))"

definition resultMatchesPreferredLanguage :: "runtime \<Rightarrow> jsval \<Rightarrow> jsval \<Rightarrow> js_error + bool" where
  "resultMatchesPreferredLanguage rt result preferredLanguage =
     (if \<not> truthy preferredLanguage \<or> \<not> truthy result then Inr False
      else bindE (call_toLowerCase rt preferredLanguage) (\<lambda>normalized.
        bindE (if truthy (field result ''language'')
               then bindE (call_toLowerCase rt (field result ''language'')) (\<lambda>l.
                      Inr (strict_eq l normalized))
               else Inr False) (\<lambda>sameLanguage.
          if sameLanguage then Inr True
          else (case field result ''languages'' of
                  Arr langs \<Rightarrow> someLanguageMatches rt normalized langs
                | _ \<Rightarrow> Inr False))))"

subsection \<open>compareQualityThenSize and Array.prototype.sort\<close>

definition finiteOrZero :: "jsval \<Rightarrow> jsval" where
  "finiteOrZero sz = (if isFinite sz then sz else Num (Fin 0))"

definition compareQualityThenSize :: "runtime \<Rightarrow> jsval \<Rightarrow> jsval \<Rightarrow> js_error + jsnum" where
  "compareQualityThenSize rt a b =
     bindE (get a ''qualityRank'') (\<lambda>aRank.
     bindE (get b ''qualityRank'') (\<lambda>bRank.
       if \<not> strict_eq aRank bRank then Inr (num_sub (toNumber rt bRank) (toNumber rt aRank))
       else
         (let aSize = finiteOrZero (field a ''size'');
              bSize = finiteOrZero (field b ''size'')
          in Inr (num_sub (toNumber rt bSize) (toNumber rt aSize)))))"

text \<open>
  \<open>Array.prototype.sort\<close> with a comparator is stable: \<open>x\<close> stays before a later \<open>y\<close>
  unless \<open>comparefn(x, y) > 0\<close>, a NaN counting as zero. For a consistent comparator every
  conforming engine returns the same array; the stable insertion sort stands for them.
  The elements that are \<open>undefined\<close> go last and never reach the comparator. A comparator
  that throws ends the sort, and the array keeps its elements.
\<close>

fun positive :: "jsnum \<Rightarrow> bool" where
  "positive (Fin r) = (0 < r)"
| "positive PosInf = True"
| "positive n = False"

fun insertSorted :: "('a \<Rightarrow> 'a \<Rightarrow> js_error + jsnum) \<Rightarrow> 'a \<Rightarrow> 'a list \<Rightarrow> js_error + 'a list" where
  "insertSorted cmp x [] = Inr [x]"
| "insertSorted cmp x (y # ys) =
     bindE (cmp x y) (\<lambda>c.
       if positive c then bindE (insertSorted cmp x ys) (\<lambda>r. Inr (y # r))
       else Inr (x # y # ys))"

fun sortBy :: "('a \<Rightarrow> 'a \<Rightarrow> js_error + jsnum) \<Rightarrow> 'a list \<Rightarrow> js_error + 'a list" where
  "sortBy cmp [] = Inr []"
| "sortBy cmp (x # xs) = bindE (sortBy cmp xs) (insertSorted cmp x)"

definition array_sort :: "(jsval \<Rightarrow> jsval \<Rightarrow> js_error + jsnum) \<Rightarrow> jsval list \<Rightarrow> js_error + jsval list" where
  "array_sort cmp xs =
     bindE (sortBy cmp (filter (\<lambda>x. x \<noteq> Undefined) xs)) (\<lambda>ys.
       Inr (ys @ filter (\<lambda>x. x = Undefined) xs))"

subsection \<open>sortAnnotatedResults and prepareSortedResults\<close>

text \<open>The \<open>for ... of\<close> loop that pushes each result to \<open>preferred\<close> or to \<open>others\<close>.\<close>

fun partitionByLanguage :: "runtime \<Rightarrow> jsval \<Rightarrow> jsval list \<Rightarrow> js_error + (jsval list \<times> jsval list)" where
  "partitionByLanguage rt preferredLanguage [] = Inr ([], [])"
| "partitionByLanguage rt preferredLanguage (result # rest) =
     bindE (resultMatchesPreferredLanguage rt result preferredLanguage) (\<lambda>matches.
     bindE (partitionByLanguage rt preferredLanguage rest) (\<lambda>(preferred, others).
       Inr (if matches then (result # preferred, others) else (preferred, result # others))))"

definition languageFirst :: "jsval \<Rightarrow> jsval \<Rightarrow> bool" where
  "languageFirst sortMode preferredLanguage =
     (strict_eq sortMode (Str ''language_quality_size'') \<and> truthy preferredLanguage)"

definition sortAnnotatedResults :: "runtime \<Rightarrow> jsval \<Rightarrow> jsval \<Rightarrow> jsval \<Rightarrow> js_error + jsval" where
  "sortAnnotatedResults rt results sortMode preferredLanguage =
     (case results of
        Arr xs \<Rightarrow>
          (if xs = [] then Inr results
           else if languageFirst sortMode preferredLanguage then
             bindE (partitionByLanguage rt preferredLanguage xs) (\<lambda>(preferred, others).
             bindE (array_sort (compareQualityThenSize rt) preferred) (\<lambda>preferred'.
             bindE (array_sort (compareQualityThenSize rt) others) (\<lambda>others'.
               Inr (Arr (preferred' @ others')))))
           else bindE (array_sort (compareQualityThenSize rt) xs) (\<lambda>sorted. Inr (Arr sorted)))
      | _ \<Rightarrow> Inr results)"

text \<open>
  The default \<open>options = {}\<close> replaces \<open>undefined\<close> only; destructuring \<open>null\<close> throws.
\<close>

definition prepareSortedResults :: "runtime \<Rightarrow> jsval \<Rightarrow> jsval \<Rightarrow> js_error + jsval" where
  "prepareSortedResults rt results options =
     (let options = (if options = Undefined then Obj [] else options) in
      bindE (get options ''maxSizeBytes'') (\<lambda>maxSizeBytes.
      bindE (get options ''sortMode'') (\<lambda>sortMode.
      bindE (get options ''preferredLanguage'') (\<lambda>preferredLanguage.
        sortAnnotatedResults rt (applyMaxSizeFilter results maxSizeBytes)
          sortMode preferredLanguage))))"

subsection \<open>The same functions on arrays in a store\<close>

text \<open>
  \<open>results.sort(...)\<close> sorts the array in place and \<open>filter\<close> and \<open>concat\<close> return new
  arrays, so whether a call changes its argument depends on which array a variable refers
  to. Here an array argument is an address in a store of array contents; the elements are
  values as before. A new array takes the next free address. A sort that throws leaves
  its array as it was, and the call ends with the error.
\<close>

type_synonym store = "jsval list list"

datatype arrayArg = ArrayAt nat | NotArray jsval

definition contents :: "store \<Rightarrow> nat \<Rightarrow> jsval list" where
  "contents st a = (if a < length st then st ! a else [])"

definition allocate :: "store \<Rightarrow> jsval list \<Rightarrow> store \<times> arrayArg" where
  "allocate st xs = (st @ [xs], ArrayAt (length st))"

definition valueOf :: "store \<Rightarrow> arrayArg \<Rightarrow> jsval" where
  "valueOf st r = (case r of ArrayAt a \<Rightarrow> Arr (contents st a) | NotArray v \<Rightarrow> v)"

definition applyMaxSizeFilter_st :: "store \<Rightarrow> arrayArg \<Rightarrow> jsval \<Rightarrow> store \<times> arrayArg" where
  "applyMaxSizeFilter_st st results maxSizeBytes =
     (case results of
        ArrayAt a \<Rightarrow>
          (if \<not> isFinite maxSizeBytes \<or> \<not> positiveFinite maxSizeBytes then (st, results)
           else allocate st (filter (sizeWithinLimit maxSizeBytes) (contents st a)))
      | NotArray v \<Rightarrow> (st, results))"

definition sortAnnotatedResults_st ::
  "runtime \<Rightarrow> store \<Rightarrow> arrayArg \<Rightarrow> jsval \<Rightarrow> jsval \<Rightarrow> js_error + store \<times> arrayArg" where
  "sortAnnotatedResults_st rt st results sortMode preferredLanguage =
     (case results of
        ArrayAt a \<Rightarrow>
          (if contents st a = [] then Inr (st, results)
           else if languageFirst sortMode preferredLanguage then
             bindE (partitionByLanguage rt preferredLanguage (contents st a)) (\<lambda>(preferred, others).
             bindE (array_sort (compareQualityThenSize rt) preferred) (\<lambda>preferred'.
             bindE (array_sort (compareQualityThenSize rt) others) (\<lambda>others'.
               Inr (allocate (st @ [preferred', others']) (preferred' @ others')))))
           else
             bindE (array_sort (compareQualityThenSize rt) (contents st a)) (\<lambda>sorted.
               Inr (st[a := sorted], results)))
      | NotArray v \<Rightarrow> Inr (st, results))"

definition prepareSortedResults_st ::
  "runtime \<Rightarrow> store \<Rightarrow> arrayArg \<Rightarrow> jsval \<Rightarrow> js_error + store \<times> arrayArg" where
  "prepareSortedResults_st rt st results options =
     (let options = (if options = Undefined then Obj [] else options) in
      bindE (get options ''maxSizeBytes'') (\<lambda>maxSizeBytes.
      bindE (get options ''sortMode'') (\<lambda>sortMode.
      bindE (get options ''preferredLanguage'') (\<lambda>preferredLanguage.
        (let (st', working) = applyMaxSizeFilter_st st results maxSizeBytes in
         sortAnnotatedResults_st rt st' working sortMode preferredLanguage)))))"

text \<open>The option a call reads by destructuring, the default \<open>{}\<close> standing for \<open>undefined\<close>.\<close>

definition optionOf :: "jsval \<Rightarrow> string \<Rightarrow> jsval" where
  "optionOf options k = field (if options = Undefined then Obj [] else options) k"

subsection \<open>Triage aggregation\<close>


definition arrayOrEmpty :: "jsval \<Rightarrow> jsval" where
  "arrayOrEmpty v = (if isArray v then v else Arr [])"

text \<open>The object stored for a title; \<open>slice()\<close> copies an array, element for element.\<close>

definition titleEntry :: "jsval \<Rightarrow> jsval \<Rightarrow> jsval \<Rightarrow> jsval" where
  "titleEntry decision downloadUrl normalizedTitle =
     Obj [(''status'', field decision ''status''),
          (''blockers'', arrayOrEmpty (field decision ''blockers'')),
          (''warnings'', arrayOrEmpty (field decision ''warnings'')),
          (''archiveFindings'', arrayOrEmpty (field decision ''archiveFindings'')),
          (''fileCount'', js_coalesce (field decision ''fileCount'') Null),
          (''normalizedTitle'', normalizedTitle),
          (''title'', js_or (field decision ''title'') Null),
          (''sourceDownloadUrl'', downloadUrl),
          (''publishDateMs'', js_coalesce (field decision ''publishDateMs'') Null),
          (''ageDays'', js_coalesce (field decision ''ageDays'') Null)]"



text \<open>
  The keys of a \<open>Map\<close> and the members of a \<open>Set\<close> are compared as the language does
  (SameValueZero). Two primitives are the same key when they are the same value. An object
  is the same key as itself only: as for \<open>===\<close>, the values carry no identity and two
  objects met at two places of the data are taken as two objects, so an object is never
  found among the keys, and setting or adding it makes a new entry. The properties below
  are stated for primitive keys, as titles, URLs and statuses are.
\<close>

fun primitive :: "jsval \<Rightarrow> bool" where
  "primitive (Arr xs) = False"
| "primitive (Obj kvs) = False"
| "primitive (MapV m) = False"
| "primitive (SetV s) = False"
| "primitive v = True"

definition hasKey :: "jsval list \<Rightarrow> jsval \<Rightarrow> bool" where
  "hasKey keys k = (primitive k \<and> k \<in> set keys)"

text \<open>
  A \<open>Map\<close> is the list of its entries in insertion order. \<open>Map.get\<close> looks a key up and
  \<open>Map.set\<close> replaces the value of a key in place or appends a new entry.
\<close>

definition map_get :: "(jsval \<times> jsval) list \<Rightarrow> jsval \<Rightarrow> jsval" where
  "map_get m k =
     (if primitive k then (case map_of m k of Some v \<Rightarrow> v | None \<Rightarrow> Undefined)
      else Undefined)"




subsection \<open>prioritizeTriageCandidates\<close>

text \<open>\<open>Math.max(1, n)\<close> and \<open>len >= cap\<close>: a NaN makes the maximum NaN and the test false.\<close>

fun mathMax1 :: "jsnum \<Rightarrow> jsnum" where
  "mathMax1 NaN = NaN"
| "mathMax1 PosInf = PosInf"
| "mathMax1 NegInf = Fin 1"
| "mathMax1 (Fin r) = Fin (max 1 r)"

definition dedupKey :: "parsers \<Rightarrow> jsval \<Rightarrow> jsval" where
  "dedupKey ps result =
     js_or (js_or (field result ''normalizedTitle'')
                  (normalizeReleaseTitle ps (field result ''title'')))
           (field result ''downloadUrl'')"

text \<open>
  The loop over the results, with the set of the keys seen and the array selected so far;
  the \<open>break\<close> returns the selection at once.
\<close>

fun prioritizeLoop ::
  "parsers \<Rightarrow> jsnum \<Rightarrow> jsval list \<Rightarrow> jsval list \<Rightarrow> jsval list \<Rightarrow> jsval list" where
  "prioritizeLoop ps cap seenTitles selected [] = selected"
| "prioritizeLoop ps cap seenTitles selected (result # rest) =
     (if \<not> truthy result then prioritizeLoop ps cap seenTitles selected rest
      else
        (let normalizedTitle = dedupKey ps result in
         if hasKey seenTitles normalizedTitle then prioritizeLoop ps cap seenTitles selected rest
         else
           (let selected' = selected @ [result] in
            if num_le cap (Fin (real (length selected'))) then selected'
            else prioritizeLoop ps cap (seenTitles @ [normalizedTitle]) selected' rest)))"

definition prioritizeTriageCandidates :: "runtime \<Rightarrow> parsers \<Rightarrow> jsval \<Rightarrow> jsval \<Rightarrow> jsval" where
  "prioritizeTriageCandidates rt ps results maxCandidates =
     (case results of
        Arr xs \<Rightarrow>
          (if xs = [] then Arr []
           else Arr (prioritizeLoop ps (mathMax1 (toNumber rt maxCandidates)) [] [] xs))
      | _ \<Rightarrow> Arr [])"

subsection \<open>triageDecisionsMatchStatuses\<close>

text \<open>
  \<open>candidates.length === 0\<close>, the members a \<open>for ... of\<close> loop visits, \<open>decisionMap.get\<close>
  and \<open>allowedStatuses.has\<close>. A value that is not iterable, or has no such method, throws.
  A string is iterated one member per byte: the loop reads \<open>downloadUrl\<close> of a member
  only, which no string has.
\<close>

definition lengthIsZero :: "jsval \<Rightarrow> bool" where
  "lengthIsZero v = (case v of Str s \<Rightarrow> s = [] | _ \<Rightarrow> field v ''length'' = Num (Fin 0))"

definition iterate :: "jsval \<Rightarrow> js_error + jsval list" where
  "iterate v =
     (case v of
        Arr xs \<Rightarrow> Inr xs
      | Str s \<Rightarrow> Inr (map (\<lambda>c. Str [c]) s)
      | SetV xs \<Rightarrow> Inr xs
      | MapV m \<Rightarrow> Inr (map (\<lambda>(k, x). Arr [k, x]) m)
      | _ \<Rightarrow> Inl TypeError)"

definition call_get :: "jsval \<Rightarrow> jsval \<Rightarrow> js_error + jsval" where
  "call_get m k = (case m of MapV entries \<Rightarrow> Inr (map_get entries k) | _ \<Rightarrow> Inl TypeError)"

definition call_has :: "jsval \<Rightarrow> jsval \<Rightarrow> js_error + bool" where
  "call_has s v =
     (case s of
        SetV xs \<Rightarrow> Inr (hasKey xs v)
      | MapV entries \<Rightarrow> Inr (hasKey (map fst entries) v)
      | _ \<Rightarrow> Inl TypeError)"

fun allDecisionsAllowed :: "jsval \<Rightarrow> jsval \<Rightarrow> jsval list \<Rightarrow> js_error + bool" where
  "allDecisionsAllowed decisionMap allowedStatuses [] = Inr True"
| "allDecisionsAllowed decisionMap allowedStatuses (candidate # rest) =
     bindE (get candidate ''downloadUrl'') (\<lambda>downloadUrl.
     bindE (call_get decisionMap downloadUrl) (\<lambda>decision.
       if \<not> truthy decision then Inr False
       else bindE (call_has allowedStatuses (field decision ''status'')) (\<lambda>allowed.
         if \<not> allowed then Inr False
         else allDecisionsAllowed decisionMap allowedStatuses rest)))"

definition triageDecisionsMatchStatuses :: "jsval \<Rightarrow> jsval \<Rightarrow> jsval \<Rightarrow> js_error + bool" where
  "triageDecisionsMatchStatuses decisionMap candidates allowedStatuses =
     (if \<not> truthy decisionMap \<or> \<not> truthy candidates \<or> lengthIsZero candidates then Inr False
      else bindE (iterate candidates) (allDecisionsAllowed decisionMap allowedStatuses))"

section \<open>Metadata resolver\<close>

subsection \<open>Title normalization\<close>

text \<open>
  A string is its UTF-8 bytes. A character outside ASCII is a run of bytes from 0x80
  upwards, and the combining marks U+0300 to U+036F are the two-byte runs 0xCC 0x80-0xBF
  and 0xCD 0x80-0xAF.
\<close>

definition nonAsciiChar :: "char \<Rightarrow> bool" where
  "nonAsciiChar c = (128 \<le> (of_char c :: nat))"

fun stripCombiningMarks :: "string \<Rightarrow> string" where
  "stripCombiningMarks (a # b # rest) =
     (if (a = CHR 0xCC \<and> 128 \<le> (of_char b :: nat) \<and> (of_char b :: nat) \<le> 191)
         \<or> (a = CHR 0xCD \<and> 128 \<le> (of_char b :: nat) \<and> (of_char b :: nat) \<le> 175)
      then stripCombiningMarks rest
      else a # stripCombiningMarks (b # rest))"
| "stripCombiningMarks s = s"

definition lowerAlphanumeric :: "char \<Rightarrow> bool" where
  "lowerAlphanumeric c = (c \<in> set ''abcdefghijklmnopqrstuvwxyz0123456789'')"

definition normalizeTitleValue :: "runtime \<Rightarrow> jsval \<Rightarrow> string" where
  "normalizeTitleValue rt v =
     (case v of
        Str s \<Rightarrow>
          trim rt (filter lowerAlphanumeric
            (toLowerCase rt (stripCombiningMarks (normalizeNFKD rt s))))
      | _ \<Rightarrow> [])"

definition containsNonAscii :: "jsval \<Rightarrow> bool" where
  "containsNonAscii v = (case v of Str s \<Rightarrow> list_ex nonAsciiChar s | _ \<Rightarrow> False)"

subsection \<open>Locale tokens\<close>

text \<open>
  \<open>lang\<close> and \<open>region\<close> are a trimmed, lowered string or \<open>null\<close>. They are read under a
  truthiness test only, which the empty string and \<open>null\<close> both fail, so the empty string
  stands for both.
\<close>

definition trimmedLower :: "runtime \<Rightarrow> jsval \<Rightarrow> string" where
  "trimmedLower rt v = (case v of Str s \<Rightarrow> toLowerCase rt (trim rt s) | _ \<Rightarrow> [])"

definition fallbackPrefix :: "runtime \<Rightarrow> jsval \<Rightarrow> string option" where
  "fallbackPrefix rt fallbackLanguage =
     (case fallbackLanguage of
        Str s \<Rightarrow> (if trim rt s \<noteq> [] then Some (toLowerCase rt (trim rt s)) else None)
      | _ \<Rightarrow> None)"

definition deriveLocaleTokens :: "runtime \<Rightarrow> jsval \<Rightarrow> jsval \<Rightarrow> jsval \<Rightarrow> string list" where
  "deriveLocaleTokens rt iso639 iso3166 fallbackLanguage =
     (let lang = trimmedLower rt iso639;
          region = trimmedLower rt iso3166
      in (if lang \<noteq> [] \<and> region \<noteq> [] then [lang @ ''-'' @ region] else [])
         @ (if lang \<noteq> [] then [lang] else [])
         @ (if lang = [] \<and> region \<noteq> [] then
              (case fallbackPrefix rt fallbackLanguage of
                 Some fallback \<Rightarrow> [fallback @ ''-'' @ region]
               | None \<Rightarrow> [])
            else [])
         @ (if region \<noteq> [] then [region] else []))"

subsection \<open>scoreLocalizedCandidate\<close>

text \<open>
  The function is local to the module. Its candidates are the records \<open>registerCandidate\<close>
  builds and its options the record \<open>buildLocalizedTitles\<close> builds: the normalized titles
  are strings, \<open>containsNonAscii\<close> is a boolean, the language and the region of the
  metadata are a string or \<open>null\<close>, the origin countries are an array of strings. The
  fields that carry values of the payload as they came are values.
\<close>

record candidateMeta =
  metaType :: jsval
  metaIso639 :: "string option"
  metaIso3166 :: "string option"
  metaName :: jsval
  metaEnglishName :: jsval

record candidate =
  candTitle :: jsval
  candOverview :: jsval
  candTagline :: jsval
  candSource :: string
  candNormalizedTitle :: string
  candContainsNonAscii :: bool
  candMeta :: candidateMeta

record scoreOptions =
  optDefaultNormalized :: string
  optOriginalNormalized :: string
  optOriginalLanguage :: "string option"
  optOriginCountries :: "string list"

text \<open>
  \<open>/a|b|c/i.test(v)\<close>: the value as a string holds one of the words, whatever the case
  of its ASCII letters. Without the \<open>u\<close> flag no character outside ASCII matches a letter
  of the pattern.
\<close>

fun startsWith :: "string \<Rightarrow> string \<Rightarrow> bool" where
  "startsWith [] s = True"
| "startsWith (p # ps) [] = False"
| "startsWith (p # ps) (c # cs) = (p = c \<and> startsWith ps cs)"

fun containsWord :: "string \<Rightarrow> string \<Rightarrow> bool" where
  "containsWord w [] = startsWith w []"
| "containsWord w (c # cs) = (startsWith w (c # cs) \<or> containsWord w cs)"

definition testAnyWord :: "runtime \<Rightarrow> string list \<Rightarrow> jsval \<Rightarrow> bool" where
  "testAnyWord rt ws v = list_ex (\<lambda>w. containsWord w (map asciiLower (js_String rt v))) ws"

definition officialType :: "runtime \<Rightarrow> candidate \<Rightarrow> bool" where
  "officialType rt c =
     (truthy (metaType (candMeta c))
      \<and> testAnyWord rt [''official'', ''literal'', ''original''] (metaType (candMeta c)))"

definition variantType :: "runtime \<Rightarrow> candidate \<Rightarrow> bool" where
  "variantType rt c =
     (truthy (metaType (candMeta c))
      \<and> testAnyWord rt [''festival'', ''working'', ''dvd'', ''tv''] (metaType (candMeta c)))"

definition originalLanguageMatch :: "candidate \<Rightarrow> scoreOptions \<Rightarrow> bool" where
  "originalLanguageMatch c options =
     (case (metaIso639 (candMeta c), optOriginalLanguage options) of
        (Some l, Some ol) \<Rightarrow> l \<noteq> [] \<and> ol \<noteq> [] \<and> l = ol
      | _ \<Rightarrow> False)"

definition originCountryMatch :: "runtime \<Rightarrow> candidate \<Rightarrow> scoreOptions \<Rightarrow> bool" where
  "originCountryMatch rt c options =
     (case metaIso3166 (candMeta c) of
        Some r \<Rightarrow> r \<noteq> [] \<and> toUpperCase rt r \<in> set (optOriginCountries options)
      | None \<Rightarrow> False)"

definition defaultTitleMatch :: "candidate \<Rightarrow> scoreOptions \<Rightarrow> bool" where
  "defaultTitleMatch c options =
     (candNormalizedTitle c \<noteq> [] \<and> candNormalizedTitle c = optDefaultNormalized options)"

definition originalTitleMatch :: "candidate \<Rightarrow> scoreOptions \<Rightarrow> bool" where
  "originalTitleMatch c options =
     (candNormalizedTitle c \<noteq> [] \<and> candNormalizedTitle c = optOriginalNormalized options)"

definition scoreLocalizedCandidate :: "runtime \<Rightarrow> candidate \<Rightarrow> scoreOptions \<Rightarrow> int" where
  "scoreLocalizedCandidate rt c options =
       (if candSource c = ''translation'' then 40 else 0)
     + (if candSource c = ''alternative'' then 15 else 0)
     + (if officialType rt c then 8 else 0)
     - (if variantType rt c then 3 else 0)
     + (if originalLanguageMatch c options then 6 else 0)
     + (if originCountryMatch rt c options then 4 else 0)
     + (if candContainsNonAscii c then 3 else 0)
     - (if defaultTitleMatch c options then 6 else 0)
     + (if originalTitleMatch c options then 6 else 0)"

subsection \<open>buildLocalizedTitles\<close>

text \<open>
  \<open>v?.toLowerCase() || null\<close>: \<open>null\<close> for \<open>null\<close>, \<open>undefined\<close> and the empty string, the
  lowered string for a string; any other value has no such method and the call throws.
\<close>

definition lowerOrNull :: "runtime \<Rightarrow> jsval \<Rightarrow> js_error + string option" where
  "lowerOrNull rt v =
     (if nullish v then Inr None
      else (case v of
              Str s \<Rightarrow> Inr (if toLowerCase rt s = [] then None else Some (toLowerCase rt s))
            | _ \<Rightarrow> Inl TypeError))"

text \<open>\<open>new Set(list)\<close>: the members in the order of their first occurrence.\<close>

definition newSet :: "'a list \<Rightarrow> 'a list" where
  "newSet xs = rev (remdups (rev xs))"

text \<open>
  \<open>xs.forEach(f)\<close> for a callback that updates a state and may throw. An array, a map
  and a set have the method, and a map and a set pass their values; on any other value
  the call throws.
\<close>

fun forEachE :: "('s \<Rightarrow> 'a \<Rightarrow> js_error + 's) \<Rightarrow> 's \<Rightarrow> 'a list \<Rightarrow> js_error + 's" where
  "forEachE f s [] = Inr s"
| "forEachE f s (x # xs) = bindE (f s x) (\<lambda>s'. forEachE f s' xs)"

definition forEachItems :: "jsval \<Rightarrow> js_error + jsval list" where
  "forEachItems v =
     (case v of
        Arr xs \<Rightarrow> Inr xs
      | MapV m \<Rightarrow> Inr (map snd m)
      | SetV xs \<Rightarrow> Inr xs
      | _ \<Rightarrow> Inl TypeError)"

text \<open>
  The payload the two callers hand to \<open>registerCandidate\<close>, and the map from a locale
  token to the array of the candidates registered under it, in insertion order.
\<close>

record payload =
  payTitle :: jsval
  payOverview :: jsval
  payTagline :: jsval
  paySource :: string
  payMeta :: candidateMeta

type_synonym candidateMap = "(string \<times> candidate list) list"

definition newCandidate :: "runtime \<Rightarrow> payload \<Rightarrow> candidate" where
  "newCandidate rt p =
     \<lparr> candTitle = payTitle p,
       candOverview = js_or (payOverview p) Null,
       candTagline = js_or (payTagline p) Null,
       candSource = (if paySource p \<noteq> [] then paySource p else ''translation''),
       candNormalizedTitle = normalizeTitleValue rt (payTitle p),
       candContainsNonAscii = containsNonAscii (payTitle p),
       candMeta = payMeta p \<rparr>"

text \<open>\<open>candidateMap.get(token).push(c)\<close>, after an empty array is set for a new token.\<close>

definition pushCandidate :: "candidateMap \<Rightarrow> string \<Rightarrow> candidate \<Rightarrow> candidateMap" where
  "pushCandidate cm token c =
     (case map_of cm token of
        None \<Rightarrow> cm @ [(token, [c])]
      | Some cs \<Rightarrow> AList.update token (cs @ [c]) cm)"

definition registerCandidate :: "runtime \<Rightarrow> candidateMap \<Rightarrow> string list \<Rightarrow> payload \<Rightarrow> candidateMap" where
  "registerCandidate rt cm tokens p =
     (if \<not> truthy (payTitle p) then cm
      else foldl (\<lambda>cm token. if token = [] then cm else pushCandidate cm token (newCandidate rt p))
             cm tokens)"

text \<open>The callback of \<open>translations.forEach\<close>.\<close>

definition translationStep :: "runtime \<Rightarrow> candidateMap \<Rightarrow> jsval \<Rightarrow> js_error + candidateMap" where
  "translationStep rt cm entry =
     (if \<not> truthy entry \<or> \<not> truthy (field entry ''iso_639_1'') then Inr cm
      else
        (let payload = js_or (field entry ''data'') (Obj []);
             title = js_or (field payload ''title'') (field payload ''name'')
         in if \<not> truthy title then Inr cm
            else
              (let tokens = newSet (deriveLocaleTokens rt (field entry ''iso_639_1'')
                                      (field entry ''iso_3166_1'') Undefined)
               in bindE (lowerOrNull rt (field entry ''iso_639_1'')) (\<lambda>iso639.
                  bindE (lowerOrNull rt (field entry ''iso_3166_1'')) (\<lambda>iso3166.
                    Inr (registerCandidate rt cm tokens
                      \<lparr> payTitle = title,
                        payOverview = js_or (field payload ''overview'') Null,
                        payTagline = js_or (field payload ''tagline'') Null,
                        paySource = ''translation'',
                        payMeta =
                          \<lparr> metaType = Undefined,
                            metaIso639 = iso639,
                            metaIso3166 = iso3166,
                            metaName = js_or (field entry ''name'') Null,
                            metaEnglishName = js_or (field entry ''english_name'') Null \<rparr> \<rparr>))))))"

text \<open>The callback of \<open>alternativeTitles.forEach\<close>; \<open>fallback\<close> is \<open>options.originalLanguage\<close>.\<close>

definition alternativeStep :: "runtime \<Rightarrow> jsval \<Rightarrow> candidateMap \<Rightarrow> jsval \<Rightarrow> js_error + candidateMap" where
  "alternativeStep rt fallback cm entry =
     (if \<not> truthy entry \<or> \<not> truthy (field entry ''title'') then Inr cm
      else
        (let tokens = newSet (deriveLocaleTokens rt (field entry ''iso_639_1'')
                                (field entry ''iso_3166_1'') fallback)
         in if tokens = [] then Inr cm
            else
              bindE (lowerOrNull rt (field entry ''iso_639_1'')) (\<lambda>iso639.
              bindE (lowerOrNull rt (field entry ''iso_3166_1'')) (\<lambda>iso3166.
                Inr (registerCandidate rt cm tokens
                  \<lparr> payTitle = field entry ''title'',
                    payOverview = Undefined,
                    payTagline = Undefined,
                    paySource = ''alternative'',
                    payMeta =
                      \<lparr> metaType = js_or (field entry ''type'') Null,
                        metaIso639 = iso639,
                        metaIso3166 = iso3166,
                        metaName = Undefined,
                        metaEnglishName = Undefined \<rparr> \<rparr>)))))"

text \<open>The options of the score, normalized as the function does before the two loops.\<close>

definition scoreOptionsOf :: "runtime \<Rightarrow> jsval \<Rightarrow> js_error + scoreOptions" where
  "scoreOptionsOf rt options =
     bindE (get options ''defaultTitle'') (\<lambda>defaultTitle.
     bindE (get options ''originalTitle'') (\<lambda>originalTitle.
     bindE (get options ''originCountries'') (\<lambda>originCountries.
     bindE (get options ''originalLanguage'') (\<lambda>originalLanguage.
       Inr \<lparr> optDefaultNormalized = normalizeTitleValue rt defaultTitle,
             optOriginalNormalized = normalizeTitleValue rt originalTitle,
             optOriginalLanguage =
               (case originalLanguage of
                  Str s \<Rightarrow> Some (toLowerCase rt (trim rt s))
                | _ \<Rightarrow> None),
             optOriginCountries =
               (case originCountries of
                  Arr entries \<Rightarrow>
                    filter (\<lambda>country. country \<noteq> [])
                      (map (\<lambda>entry. case entry of
                                       Str s \<Rightarrow> toUpperCase rt (trim rt s)
                                     | _ \<Rightarrow> [])
                         entries)
                | _ \<Rightarrow> []) \<rparr>))))"

text \<open>The candidate map after the two loops.\<close>

definition collectCandidates :: "runtime \<Rightarrow> jsval \<Rightarrow> jsval \<Rightarrow> jsval \<Rightarrow> js_error + candidateMap" where
  "collectCandidates rt translations alternativeTitles options =
     bindE (forEachItems translations) (\<lambda>ts.
     bindE (forEachE (translationStep rt) [] ts) (\<lambda>cm.
     bindE (forEachItems alternativeTitles) (\<lambda>as.
     bindE (get options ''originalLanguage'') (\<lambda>fallback.
       forEachE (alternativeStep rt fallback) cm as))))"

text \<open>
  The last loop: the candidates of a token are scored, sorted by descending score, and
  the first is kept. \<open>localized[token] = ...\<close> adds a property; for the name \<open>__proto__\<close>
  the assignment sets the prototype and adds none.
\<close>

definition compareScore :: "candidate \<times> int \<Rightarrow> candidate \<times> int \<Rightarrow> js_error + jsnum" where
  "compareScore a b = Inr (Fin (real_of_int (snd b - snd a)))"

definition bestCandidate :: "runtime \<Rightarrow> scoreOptions \<Rightarrow> candidate list \<Rightarrow> candidate option" where
  "bestCandidate rt options candidates =
     (case sortBy compareScore
             (map (\<lambda>c. (c, scoreLocalizedCandidate rt c options)) candidates) of
        Inr (scored # rest) \<Rightarrow> Some (fst scored)
      | _ \<Rightarrow> None)"

definition localizedEntry :: "candidate \<Rightarrow> jsval" where
  "localizedEntry best =
     Obj [(''title'', candTitle best),
          (''overview'', candOverview best),
          (''tagline'', candTagline best),
          (''source'', Str (candSource best)),
          (''type'', js_or (metaType (candMeta best)) Null)]"

definition assignLocalized :: "(string \<times> jsval) list \<Rightarrow> string \<Rightarrow> jsval \<Rightarrow> (string \<times> jsval) list" where
  "assignLocalized localized token entry =
     (if token = ''__proto__'' then localized else AList.update token entry localized)"

definition chooseStep ::
  "runtime \<Rightarrow> scoreOptions \<Rightarrow> (string \<times> jsval) list \<Rightarrow> string \<times> candidate list
     \<Rightarrow> (string \<times> jsval) list" where
  "chooseStep rt options localized entry =
     (case bestCandidate rt options (snd entry) of
        Some best \<Rightarrow> assignLocalized localized (fst entry) (localizedEntry best)
      | None \<Rightarrow> localized)"

definition chooseLocalized :: "runtime \<Rightarrow> scoreOptions \<Rightarrow> candidateMap \<Rightarrow> (string \<times> jsval) list" where
  "chooseLocalized rt options cm = foldl (chooseStep rt options) [] cm"

definition emptyOrNoArray :: "jsval \<Rightarrow> bool" where
  "emptyOrNoArray v = (case v of Arr xs \<Rightarrow> xs = [] | _ \<Rightarrow> True)"

definition orDefault :: "jsval \<Rightarrow> jsval \<Rightarrow> jsval" where
  "orDefault v d = (if v = Undefined then d else v)"

definition buildLocalizedTitles :: "runtime \<Rightarrow> jsval \<Rightarrow> jsval \<Rightarrow> jsval \<Rightarrow> js_error + jsval" where
  "buildLocalizedTitles rt translations alternativeTitles options =
     (let translations = orDefault translations (Arr []);
          alternativeTitles = orDefault alternativeTitles (Arr []);
          options = orDefault options (Obj [])
      in if emptyOrNoArray translations \<and> emptyOrNoArray alternativeTitles then Inr (Obj [])
         else
           bindE (scoreOptionsOf rt options) (\<lambda>scoreOptions.
           bindE (collectCandidates rt translations alternativeTitles options) (\<lambda>cm.
             Inr (Obj (chooseLocalized rt scoreOptions cm)))))"

subsection \<open>The best of a list\<close>

text \<open>
  The first element of a list among those of the highest score: the head, unless a later
  element scores strictly higher.
\<close>

fun firstBest :: "('a \<Rightarrow> int) \<Rightarrow> 'a list \<Rightarrow> 'a option" where
  "firstBest f [] = None"
| "firstBest f (x # xs) =
     (case firstBest f xs of
        None \<Rightarrow> Some x
      | Some b \<Rightarrow> (if f x < f b then Some b else Some x))"

definition candidatesUnder :: "candidateMap \<Rightarrow> string \<Rightarrow> candidate list" where
  "candidatesUnder cm token = (case map_of cm token of Some cs \<Rightarrow> cs | None \<Rightarrow> [])"

text \<open>A map is well formed when no token occurs twice and no token has an empty array.\<close>

definition wellFormedMap :: "candidateMap \<Rightarrow> bool" where
  "wellFormedMap cm = (distinct (map fst cm) \<and> (\<forall>token. map_of cm token \<noteq> Some []))"

subsection \<open>The network\<close>

text \<open>
  \<open>axios.get(url, { params, timeout })\<close> resolves with a response, of which the functions
  read \<open>data\<close>, or rejects with an error, of which they read \<open>response?.status\<close>
  (\<open>undefined\<close> when no response arrived, as after the timeout). What the network
  answers may depend on what was asked before. The calls of the two lookups, the requests
  and the warnings logged are recorded in a trace, in order.
\<close>

record request =
  reqUrl :: string
  reqParams :: "(string \<times> jsval) list"

datatype reply = Resolved jsval | Rejected jsval

datatype event = FindCalled jsval | SearchCalled jsval | Requested request | Warned

type_synonym network = "event list \<Rightarrow> request \<Rightarrow> reply"

definition TMDB_BASE_URL :: string where
  "TMDB_BASE_URL = ''https://api.themoviedb.org/3''"

definition normalizeLanguageTag :: "runtime \<Rightarrow> jsval \<Rightarrow> string" where
  "normalizeLanguageTag rt language =
     (case language of
        Str s \<Rightarrow> (if trim rt s \<noteq> [] then trim rt s else ''en-US'')
      | _ \<Rightarrow> ''en-US'')"

text \<open>
  The \<open>catch\<close> block of the two lookups: a status below 500 is no match, anything else is
  logged; \<open>null\<close> is returned in both cases.
\<close>

definition afterRejection :: "runtime \<Rightarrow> jsval \<Rightarrow> event list" where
  "afterRejection rt status =
     (if truthy status \<and> num_lt (toNumber rt status) (Fin 500) then [] else [Warned])"

definition titleOf :: "jsval \<Rightarrow> jsval" where
  "titleOf entry =
     js_or (field entry ''title'')
       (js_or (field entry ''name'')
          (js_or (field entry ''original_title'')
             (js_or (field entry ''original_name'') Null)))"

definition releaseDateOf :: "jsval \<Rightarrow> jsval" where
  "releaseDateOf entry =
     js_or (field entry ''release_date'') (js_or (field entry ''first_air_date'') Null)"

subsection \<open>findTmdbIdByImdb\<close>

definition imdbMatchOf :: "runtime \<Rightarrow> jsval \<Rightarrow> jsval" where
  "imdbMatchOf rt first =
     Obj [(''tmdbId'', Str (js_String rt (field first ''id''))),
          (''title'', titleOf first),
          (''releaseDate'', releaseDateOf first),
          (''mediaType'', js_or (field first ''media_type'') Null)]"

text \<open>The loop over the lists of the payload that are arrays.\<close>

fun firstListed :: "runtime \<Rightarrow> jsval list \<Rightarrow> jsval" where
  "firstListed rt [] = Null"
| "firstListed rt (Arr (first # others) # rest) =
     (if truthy first \<and> truthy (field first ''id'') then imdbMatchOf rt first
      else firstListed rt rest)"
| "firstListed rt (other # rest) = firstListed rt rest"

definition findTmdbIdByImdb ::
  "network \<Rightarrow> runtime \<Rightarrow> event list \<Rightarrow> jsval \<Rightarrow> jsval \<Rightarrow> jsval \<times> event list" where
  "findTmdbIdByImdb net rt trace apiKey imdbId =
     (let trace = trace @ [FindCalled imdbId] in
      if \<not> truthy apiKey \<or> \<not> truthy imdbId then (Null, trace)
      else
        (let req = \<lparr> reqUrl = TMDB_BASE_URL @ ''/find/''
                               @ encodeURIComponent rt (js_String rt imdbId),
                      reqParams = [(''api_key'', apiKey), (''external_source'', Str ''imdb_id'')] \<rparr>
         in case net trace req of
              Resolved data \<Rightarrow>
                (let payload = js_or data (Obj []) in
                 (firstListed rt
                    [field payload ''movie_results'', field payload ''tv_results'',
                     field payload ''tv_episode_results'', field payload ''tv_season_results''],
                  trace @ [Requested req]))
            | Rejected status \<Rightarrow> (Null, trace @ [Requested req] @ afterRejection rt status)))"

subsection \<open>searchTmdbByTitle\<close>

definition searchMatchOf :: "runtime \<Rightarrow> jsval \<Rightarrow> jsval \<Rightarrow> jsval" where
  "searchMatchOf rt topEntry language =
     Obj [(''tmdbId'', Str (js_String rt (field topEntry ''id''))),
          (''title'', titleOf topEntry),
          (''releaseDate'', releaseDateOf topEntry),
          (''language'', js_or language Null)]"

definition searchTmdbByTitle ::
  "network \<Rightarrow> runtime \<Rightarrow> event list \<Rightarrow> jsval \<Rightarrow> jsval \<Rightarrow> jsval \<Rightarrow> jsval \<Rightarrow> jsval
     \<Rightarrow> jsval \<times> event list" where
  "searchTmdbByTitle net rt trace apiKey type title year language =
     (let trace = trace @ [SearchCalled language] in
      if \<not> truthy apiKey \<or> \<not> truthy title then (Null, trace)
      else
        (let series = strict_eq type (Str ''series'');
             paramsLanguage =
               (if truthy language then Str (normalizeLanguageTag rt language) else Undefined);
             req = \<lparr> reqUrl = TMDB_BASE_URL @ ''/''
                               @ (if series then ''search/tv'' else ''search/movie''),
                      reqParams =
                        [(''api_key'', apiKey), (''query'', title), (''include_adult'', Bool False)]
                        @ (if truthy language then [(''language'', paramsLanguage)] else [])
                        @ (if truthy year \<and> isFinite year
                           then [(if series then ''first_air_date_year'' else ''year'', year)]
                           else []) \<rparr>
         in case net trace req of
              Resolved data \<Rightarrow>
                (let results = (case opt_get data ''results'' of Arr rs \<Rightarrow> rs | _ \<Rightarrow> []) in
                 (case find (\<lambda>entry. truthy entry \<and> truthy (field entry ''id'')) results of
                    None \<Rightarrow> Null
                  | Some topEntry \<Rightarrow> searchMatchOf rt topEntry paramsLanguage,
                  trace @ [Requested req]))
            | Rejected status \<Rightarrow> (Null, trace @ [Requested req] @ afterRejection rt status)))"

subsection \<open>resolveTmdbId\<close>

text \<open>The loop over the language candidates, left at the first match.\<close>

fun searchEach ::
  "network \<Rightarrow> runtime \<Rightarrow> jsval \<Rightarrow> jsval \<Rightarrow> jsval \<Rightarrow> jsval \<Rightarrow> event list \<Rightarrow> jsval list
     \<Rightarrow> jsval \<times> event list" where
  "searchEach net rt apiKey type title year trace [] = (Null, trace)"
| "searchEach net rt apiKey type title year trace (candidate # rest) =
     (let (searchMatch, trace') = searchTmdbByTitle net rt trace apiKey type title year candidate in
      if truthy (opt_get searchMatch ''tmdbId'') then
        (objectLiteral (spreadObject searchMatch @
           [(''via'', Str (if truthy candidate then ''title:'' @ js_String rt candidate
                           else ''title''))]),
         trace')
      else searchEach net rt apiKey type title year trace' rest)"

definition candidatesOf :: "jsval \<Rightarrow> jsval list" where
  "candidatesOf languageCandidates =
     (case orDefault languageCandidates (Arr []) of
        Arr (c # cs) \<Rightarrow> c # cs
      | _ \<Rightarrow> [Null])"

definition resolveTmdbId ::
  "network \<Rightarrow> runtime \<Rightarrow> event list \<Rightarrow> jsval \<Rightarrow> js_error + jsval \<times> event list" where
  "resolveTmdbId net rt trace args =
     bindE (get args ''apiKey'') (\<lambda>apiKey.
     bindE (get args ''type'') (\<lambda>type.
     bindE (get args ''imdbId'') (\<lambda>imdbId.
     bindE (get args ''title'') (\<lambda>title.
     bindE (get args ''year'') (\<lambda>year.
     bindE (get args ''languageCandidates'') (\<lambda>languageCandidates.
       if \<not> truthy apiKey then Inr (Null, trace)
       else
         (let normalizedType = (if strict_eq type (Str ''series'') then Str ''series''
                                else Str ''movie'');
              (imdbMatch, trace1) =
                (if truthy imdbId then findTmdbIdByImdb net rt trace apiKey imdbId
                 else (Undefined, trace))
          in if truthy imdbId \<and> truthy (opt_get imdbMatch ''tmdbId'') then
               Inr (objectLiteral (spreadObject imdbMatch @ [(''via'', Str ''imdb'')]), trace1)
             else if truthy title then
               Inr (searchEach net rt apiKey normalizedType title year trace1
                      (candidatesOf languageCandidates))
             else Inr (Null, trace1))))))))"

text \<open>The languages the title search was called with, in the order of the calls.\<close>

fun searchedLanguages :: "event list \<Rightarrow> jsval list" where
  "searchedLanguages [] = []"
| "searchedLanguages (SearchCalled language # events) = language # searchedLanguages events"
| "searchedLanguages (other # events) = searchedLanguages events"

section \<open>The words of the specification\<close>

subsection \<open>Annotated results and their order\<close>

text \<open>
  An annotated result is an object whose \<open>qualityRank\<close> is a number other than NaN, whose
  \<open>language\<close>, when set, is a string, and whose \<open>languages\<close>, when an array, holds strings
  (empty entries apart). \<open>a\<close> may stand before \<open>b\<close> when its rank is higher, or the ranks
  are equal and its size, a size that is not finite counting as zero, is not smaller.
\<close>

definition rankOf :: "jsval \<Rightarrow> jsnum" where
  "rankOf x = (case field x ''qualityRank'' of Num n \<Rightarrow> n | _ \<Rightarrow> NaN)"

definition sizeOrZero :: "jsval \<Rightarrow> real" where
  "sizeOrZero x = (case field x ''size'' of Num (Fin s) \<Rightarrow> s | _ \<Rightarrow> 0)"

definition precedesByQualityThenSize :: "jsval \<Rightarrow> jsval \<Rightarrow> bool" where
  "precedesByQualityThenSize a b =
     (num_lt (rankOf b) (rankOf a) \<or> (rankOf a = rankOf b \<and> sizeOrZero b \<le> sizeOrZero a))"

fun stringOrFalsy :: "jsval \<Rightarrow> bool" where
  "stringOrFalsy (Str s) = True"
| "stringOrFalsy v = (\<not> truthy v)"

definition annotatedResult :: "jsval \<Rightarrow> bool" where
  "annotatedResult x =
     ((case x of Obj kvs \<Rightarrow> True | _ \<Rightarrow> False)
      \<and> (case field x ''qualityRank'' of Num n \<Rightarrow> n \<noteq> NaN | _ \<Rightarrow> False)
      \<and> stringOrFalsy (field x ''language'')
      \<and> (case field x ''languages'' of Arr langs \<Rightarrow> list_all stringOrFalsy langs | _ \<Rightarrow> True))"

definition matchesLanguage :: "runtime \<Rightarrow> jsval \<Rightarrow> jsval \<Rightarrow> bool" where
  "matchesLanguage rt preferredLanguage result =
     (resultMatchesPreferredLanguage rt result preferredLanguage = Inr True)"

subsection \<open>A runtime for examples\<close>

text \<open>
  To evaluate the definitions on concrete inputs the examples below use a runtime that
  handles ASCII strings as the language does.
\<close>

definition asciiTrim :: "string \<Rightarrow> string" where
  "asciiTrim s =
     rev (dropWhile (\<lambda>c. c = CHR '' '') (rev (dropWhile (\<lambda>c. c = CHR '' '') s)))"

definition asciiRuntime :: runtime where
  "asciiRuntime =
     \<lparr> toLowerCase = map asciiLower,
       toUpperCase = map asciiUpper,
       trim = asciiTrim,
       normalizeNFKD = (\<lambda>s. s),
       stringOfOther = (\<lambda>v. ''[object Object]''),
       numberOfOther = (\<lambda>v. NaN),
       encodeURIComponent = (\<lambda>s. s) \<rparr>"

text \<open>
  Parsers for the examples: a release parser that reports a resolution and a title
  normalizer that lowers the ASCII letters of a string.
\<close>

definition exampleParsers :: parsers where
  "exampleParsers =
     \<lparr> parseReleaseMetadata = (\<lambda>title. [(''resolution'', Str ''1080p'')]),
       normalizeReleaseTitle =
         (\<lambda>title. case title of Str s \<Rightarrow> Str (map asciiLower s) | _ \<Rightarrow> Str []) \<rparr>"

subsection \<open>First occurrences\<close>

text \<open>
  The first occurrence of every distinct key, in the order of the list: the head stays,
  the later elements with the key of the head go, and so on for the rest.
\<close>

fun firstOfEachKey :: "('a \<Rightarrow> 'k) \<Rightarrow> 'a list \<Rightarrow> 'a list" where
  "firstOfEachKey key [] = []"
| "firstOfEachKey key (x # xs) = x # firstOfEachKey key (filter (\<lambda>y. key y \<noteq> key x) xs)"

text \<open>The least count of items that reaches a finite cap \<open>max(1, n)\<close>.\<close>

definition capCount :: "real \<Rightarrow> nat" where
  "capCount n = nat \<lceil>max 1 n\<rceil>"

section \<open>Properties\<close>

subsection \<open>Calls that return\<close>

lemma bindE_Inr [simp]: "bindE (Inr v) f = f v"
  by (simp add: bindE_def)

lemma bindE_Inl [simp]: "bindE (Inl e) f = Inl e"
  by (simp add: bindE_def)


lemma isFinite_iff: "isFinite v \<longleftrightarrow> (\<exists>r. v = Num (Fin r))"
  by (cases v rule: isFinite.cases) auto

lemma sizeWithinLimit_Fin:
  "sizeWithinLimit (Num (Fin m)) x \<longleftrightarrow>
     \<not> isFinite (opt_get x ''size'') \<or> (\<exists>s. opt_get x ''size'' = Num (Fin s) \<and> s \<le> m)"
  by (auto simp: sizeWithinLimit_def Let_def isFinite_iff)

text \<open>
  C3. For an array of results and a positive finite \<open>maxSizeBytes = m\<close> the function
  returns the array of the items whose size is a finite number at most \<open>m\<close> or is not a
  finite number at all, in their order: every item of the output has such a size, and no
  item of unknown size is dropped. When \<open>maxSizeBytes\<close> is not a positive finite number,
  or \<open>results\<close> is not an array, the input is returned as it is.
\<close>

theorem applyMaxSizeFilter_spec:
  "(0 < m \<longrightarrow>
      (\<exists>ys. applyMaxSizeFilter (Arr xs) (Num (Fin m)) = Arr ys \<and>
         (\<forall>y \<in> set ys. y \<in> set xs \<and>
            (\<not> isFinite (opt_get y ''size'') \<or>
             (\<exists>s. opt_get y ''size'' = Num (Fin s) \<and> s \<le> m))) \<and>
         (\<forall>x \<in> set xs. \<not> isFinite (opt_get x ''size'') \<longrightarrow> x \<in> set ys) \<and>
         ys = filter (\<lambda>x. x \<in> set ys) xs))
   \<and> (\<not> positiveFinite maxSizeBytes \<longrightarrow> applyMaxSizeFilter results maxSizeBytes = results)
   \<and> (\<not> isArray results \<longrightarrow> applyMaxSizeFilter results maxSizeBytes = results)"
proof (intro conjI impI)
  assume pos: "0 < m"
  let ?ys = "filter (sizeWithinLimit (Num (Fin m))) xs"
  have out: "applyMaxSizeFilter (Arr xs) (Num (Fin m)) = Arr ?ys"
    using pos by (simp add: applyMaxSizeFilter_def positiveFinite_def)
  have kept: "\<forall>y \<in> set ?ys. y \<in> set xs \<and>
      (\<not> isFinite (opt_get y ''size'') \<or> (\<exists>s. opt_get y ''size'' = Num (Fin s) \<and> s \<le> m))"
    by (simp add: sizeWithinLimit_Fin)
  have unknown: "\<forall>x \<in> set xs. \<not> isFinite (opt_get x ''size'') \<longrightarrow> x \<in> set ?ys"
    by (simp add: sizeWithinLimit_Fin)
  have order: "?ys = filter (\<lambda>x. x \<in> set ?ys) xs"
    by (rule filter_cong) auto
  show "\<exists>ys. applyMaxSizeFilter (Arr xs) (Num (Fin m)) = Arr ys \<and>
         (\<forall>y \<in> set ys. y \<in> set xs \<and>
            (\<not> isFinite (opt_get y ''size'') \<or>
             (\<exists>s. opt_get y ''size'' = Num (Fin s) \<and> s \<le> m))) \<and>
         (\<forall>x \<in> set xs. \<not> isFinite (opt_get x ''size'') \<longrightarrow> x \<in> set ys) \<and>
         ys = filter (\<lambda>x. x \<in> set ys) xs"
    using out kept unknown order by blast
next
  assume "\<not> positiveFinite maxSizeBytes"
  then show "applyMaxSizeFilter results maxSizeBytes = results"
    by (cases results) (simp_all add: applyMaxSizeFilter_def)
next
  assume "\<not> isArray results"
  then show "applyMaxSizeFilter results maxSizeBytes = results"
    by (cases results) (simp_all add: applyMaxSizeFilter_def)
qed

theorem applyMaxSizeFilter_spec_witness:
  "(0::real) < 100
   \<and> applyMaxSizeFilter
         (Arr [Obj [(''size'', Num (Fin 50))], Obj [(''size'', Num (Fin 500))],
               Obj [(''title'', Str ''x'')], Null])
         (Num (Fin 100))
       = Arr [Obj [(''size'', Num (Fin 50))], Obj [(''title'', Str ''x'')], Null]
   \<and> \<not> positiveFinite (Num (Fin (- 1)))
   \<and> applyMaxSizeFilter (Arr [Obj [(''size'', Num (Fin 500))]]) (Num (Fin (- 1)))
       = Arr [Obj [(''size'', Num (Fin 500))]]
   \<and> \<not> isArray (Str ''results'')
   \<and> applyMaxSizeFilter (Str ''results'') (Num (Fin 100)) = Str ''results''"
  using applyMaxSizeFilter_spec
    [where m = 100
       and xs = "[Obj [(''size'', Num (Fin 50))], Obj [(''size'', Num (Fin 500))],
                  Obj [(''title'', Str ''x'')], Null]"
       and maxSizeBytes = "Num (Fin (- 1))"
       and results = "Arr [Obj [(''size'', Num (Fin 500))]]"]
    applyMaxSizeFilter_spec
    [where m = 100 and xs = "[]" and maxSizeBytes = "Num (Fin 100)"
       and results = "Str ''results''"]
  by (simp add: applyMaxSizeFilter_def positiveFinite_def sizeWithinLimit_def
      opt_get_def nullish_def)

subsection \<open>Sorting\<close>

lemma insertSorted_sorted:
  assumes trans: "\<forall>a b c. R a b \<longrightarrow> R b c \<longrightarrow> R a c"
    and cmp: "\<forall>y \<in> set ys. \<exists>c. cmp x y = Inr c \<and> (positive c \<longleftrightarrow> \<not> R x y)"
    and total: "\<forall>y \<in> set ys. R x y \<or> R y x"
    and sorted: "sorted_wrt R ys"
  shows "\<exists>zs. insertSorted cmp x ys = Inr zs \<and> sorted_wrt R zs \<and> set zs = insert x (set ys)
           \<and> mset zs = add_mset x (mset ys)"
  using cmp total sorted
proof (induction ys)
  case Nil
  then show ?case by simp
next
  case (Cons y ys)
  from Cons.prems(1) obtain c where c: "cmp x y = Inr c" "positive c \<longleftrightarrow> \<not> R x y"
    by auto
  have p1: "\<forall>y \<in> set ys. \<exists>c. cmp x y = Inr c \<and> (positive c \<longleftrightarrow> \<not> R x y)"
    using Cons.prems(1) by simp
  have p2: "\<forall>y \<in> set ys. R x y \<or> R y x"
    using Cons.prems(2) by simp
  have p4: "sorted_wrt R ys" and yz: "\<forall>z \<in> set ys. R y z"
    using Cons.prems(3) by simp_all
  show ?case
  proof (cases "positive c")
    case True
    obtain zs where zs: "insertSorted cmp x ys = Inr zs" "sorted_wrt R zs"
      "set zs = insert x (set ys)" "mset zs = add_mset x (mset ys)"
      using Cons.IH[OF p1 p2 p4] by blast
    from True c Cons.prems(2) have yx: "R y x" by simp
    with yz zs(3) have "\<forall>z \<in> set zs. R y z" by simp
    with zs c True show ?thesis by (simp add: insert_commute)
  next
    case False
    with c have xy: "R x y" by simp
    have "\<forall>z \<in> set ys. R x z"
      using yz xy trans by blast
    with xy p4 yz c False show ?thesis by simp
  qed
qed

lemma sortBy_sorted:
  assumes trans: "\<forall>a b c. R a b \<longrightarrow> R b c \<longrightarrow> R a c"
    and cmp: "\<forall>x \<in> set xs. \<forall>y \<in> set xs. \<exists>c. cmp x y = Inr c \<and> (positive c \<longleftrightarrow> \<not> R x y)"
    and total: "\<forall>x \<in> set xs. \<forall>y \<in> set xs. R x y \<or> R y x"
  shows "\<exists>zs. sortBy cmp xs = Inr zs \<and> sorted_wrt R zs \<and> set zs = set xs \<and> mset zs = mset xs"
  using cmp total
proof (induction xs)
  case Nil
  then show ?case by simp
next
  case (Cons x xs)
  have p1: "\<forall>x \<in> set xs. \<forall>y \<in> set xs. \<exists>c. cmp x y = Inr c \<and> (positive c \<longleftrightarrow> \<not> R x y)"
    using Cons.prems(1) by simp
  have p2: "\<forall>x \<in> set xs. \<forall>y \<in> set xs. R x y \<or> R y x"
    using Cons.prems(2) by simp
  obtain zs where zs: "sortBy cmp xs = Inr zs" "sorted_wrt R zs" "set zs = set xs"
    "mset zs = mset xs"
    using Cons.IH[OF p1 p2] by blast
  have q1: "\<forall>y \<in> set zs. \<exists>c. cmp x y = Inr c \<and> (positive c \<longleftrightarrow> \<not> R x y)"
    using Cons.prems(1) zs(3) by simp
  have q2: "\<forall>y \<in> set zs. R x y \<or> R y x"
    using Cons.prems(2) zs(3) by simp
  obtain ws where "insertSorted cmp x zs = Inr ws" "sorted_wrt R ws"
    "set ws = insert x (set zs)" "mset ws = add_mset x (mset zs)"
    using insertSorted_sorted[where R = R and cmp = cmp and x = x and ys = zs, OF trans q1 q2 zs(2)]
    by blast
  with zs show ?case by simp
qed

lemma num_lt_total: "a \<noteq> NaN \<Longrightarrow> b \<noteq> NaN \<Longrightarrow> num_lt a b \<or> a = b \<or> num_lt b a"
  by (cases a; cases b) auto

lemma num_lt_trans: "num_lt a b \<Longrightarrow> num_lt b c \<Longrightarrow> num_lt a c"
  by (cases a; cases b; cases c) auto

lemma num_lt_irrefl: "\<not> num_lt a a"
  by (cases a) auto

lemma num_lt_asym: "num_lt a b \<Longrightarrow> \<not> num_lt b a"
  by (cases a; cases b) auto

lemma annotated_rank: "annotatedResult x \<Longrightarrow> field x ''qualityRank'' = Num (rankOf x) \<and> rankOf x \<noteq> NaN"
  by (auto simp: annotatedResult_def rankOf_def split: jsval.splits)

lemma precedes_total:
  "annotatedResult a \<Longrightarrow> annotatedResult b \<Longrightarrow>
     precedesByQualityThenSize a b \<or> precedesByQualityThenSize b a"
  using num_lt_total[of "rankOf a" "rankOf b"] annotated_rank[of a] annotated_rank[of b]
  by (auto simp: precedesByQualityThenSize_def)

lemma precedes_trans:
  "precedesByQualityThenSize a b \<Longrightarrow> precedesByQualityThenSize b c \<Longrightarrow>
     precedesByQualityThenSize a c"
  unfolding precedesByQualityThenSize_def
  using num_lt_trans[of "rankOf c" "rankOf b" "rankOf a"]
  by auto

lemma positive_sub:
  "a \<noteq> NaN \<Longrightarrow> b \<noteq> NaN \<Longrightarrow> a \<noteq> b \<Longrightarrow> positive (num_sub b a) \<longleftrightarrow> num_lt a b"
  by (cases a; cases b) auto

lemma compare_precedes:
  assumes "annotatedResult a" "annotatedResult b"
  shows "\<exists>c. compareQualityThenSize rt a b = Inr c \<and> (positive c \<longleftrightarrow> \<not> precedesByQualityThenSize a b)"
proof -
  from assms obtain ka kb where obj: "a = Obj ka" "b = Obj kb"
    by (auto simp: annotatedResult_def split: jsval.splits)
  have ra: "field a ''qualityRank'' = Num (rankOf a)" "rankOf a \<noteq> NaN"
    using annotated_rank[OF assms(1)] by auto
  have rb: "field b ''qualityRank'' = Num (rankOf b)" "rankOf b \<noteq> NaN"
    using annotated_rank[OF assms(2)] by auto
  have ga: "get a ''qualityRank'' = Inr (Num (rankOf a))"
    using ra obj by (simp add: get_def nullish_def)
  have gb: "get b ''qualityRank'' = Inr (Num (rankOf b))"
    using rb obj by (simp add: get_def nullish_def)
  have sz: "toNumber rt (finiteOrZero (field x ''size'')) = Fin (sizeOrZero x)" for x
    by (cases "field x ''size''" rule: isFinite.cases)
       (simp_all add: finiteOrZero_def sizeOrZero_def toNumber_def)
  show ?thesis
  proof (cases "rankOf a = rankOf b")
    case True
    then show ?thesis
      using ga gb ra rb sz[of a] sz[of b]
      by (auto simp: compareQualityThenSize_def precedesByQualityThenSize_def Let_def
          num_lt_irrefl)
  next
    case False
    then have "positive (num_sub (rankOf b) (rankOf a)) \<longleftrightarrow> num_lt (rankOf a) (rankOf b)"
      using positive_sub ra rb by simp
    moreover have "num_lt (rankOf a) (rankOf b) \<longleftrightarrow> \<not> num_lt (rankOf b) (rankOf a)"
      using num_lt_total[of "rankOf a" "rankOf b"] num_lt_asym[of "rankOf a" "rankOf b"]
        ra rb False by blast
    ultimately show ?thesis
      using False ga gb ra rb
      by (simp add: compareQualityThenSize_def precedesByQualityThenSize_def toNumber_def)
  qed
qed

lemma returns_iff: "(\<exists>b. r = Inr b) \<longleftrightarrow> r \<noteq> Inl TypeError"
proof (cases r)
  case (Inl e)
  then show ?thesis by (cases e) simp
next
  case (Inr b)
  then show ?thesis by simp
qed

lemma someLanguageMatches_total:
  "list_all stringOrFalsy langs \<Longrightarrow> someLanguageMatches rt n langs \<noteq> Inl TypeError"
proof (induction langs)
  case Nil
  then show ?case by simp
next
  case (Cons l ls)
  then show ?case
    by (cases l rule: stringOrFalsy.cases) (simp_all add: call_toLowerCase_def)
qed

lemma resultMatches_total:
  assumes "annotatedResult x"
  shows "\<exists>b. resultMatchesPreferredLanguage rt x (Str p) = Inr b"
proof -
  have langs: "(case field x ''languages'' of
        Arr ls \<Rightarrow> someLanguageMatches rt n ls | _ \<Rightarrow> Inr False) \<noteq> Inl TypeError" for n
    using assms someLanguageMatches_total[of _ rt n]
    by (simp add: annotatedResult_def split: jsval.splits)
  have "resultMatchesPreferredLanguage rt x (Str p) \<noteq> Inl TypeError"
    using assms langs[of "Str (toLowerCase rt p)"]
    by (cases "field x ''language''" rule: stringOrFalsy.cases)
       (simp_all add: resultMatchesPreferredLanguage_def call_toLowerCase_def
          annotatedResult_def)
  then show ?thesis by (simp add: returns_iff)
qed

lemma partitionByLanguage_total:
  assumes "list_all annotatedResult xs"
  shows "partitionByLanguage rt (Str p) xs =
     Inr (filter (matchesLanguage rt (Str p)) xs,
          filter (\<lambda>x. \<not> matchesLanguage rt (Str p) x) xs)"
  using assms
proof (induction xs)
  case Nil
  then show ?case by simp
next
  case (Cons x xs)
  then obtain b where "resultMatchesPreferredLanguage rt x (Str p) = Inr b"
    using resultMatches_total[of x rt p] by auto
  with Cons show ?case by (simp add: matchesLanguage_def)
qed

lemma array_sort_annotated:
  assumes "list_all annotatedResult xs"
  shows "\<exists>ys. array_sort (compareQualityThenSize rt) xs = Inr ys \<and>
     sorted_wrt precedesByQualityThenSize ys \<and> mset ys = mset xs"
proof -
  have elems: "\<forall>x \<in> set xs. annotatedResult x"
    using assms by (simp add: list_all_iff)
  then have defined: "\<forall>x \<in> set xs. x \<noteq> Undefined"
    by (auto simp: annotatedResult_def)
  then have keep: "filter (\<lambda>x. x \<noteq> Undefined) xs = xs"
    and none: "filter (\<lambda>x. x = Undefined) xs = []"
    by (simp_all add: filter_empty_conv)
  have "\<exists>ys. sortBy (compareQualityThenSize rt) xs = Inr ys \<and>
     sorted_wrt precedesByQualityThenSize ys \<and> set ys = set xs \<and> mset ys = mset xs"
  proof (rule sortBy_sorted[where R = precedesByQualityThenSize])
    show "\<forall>x\<in>set xs. \<forall>y\<in>set xs. \<exists>c. compareQualityThenSize rt x y = Inr c \<and>
        positive c = (\<not> precedesByQualityThenSize x y)"
      using elems compare_precedes by blast
    show "\<forall>x\<in>set xs. \<forall>y\<in>set xs.
        precedesByQualityThenSize x y \<or> precedesByQualityThenSize y x"
      using elems precedes_total by blast
    show "\<forall>a b c. precedesByQualityThenSize a b \<longrightarrow> precedesByQualityThenSize b c \<longrightarrow>
        precedesByQualityThenSize a c"
      using precedes_trans by blast
  qed
  then show ?thesis
    by (auto simp: array_sort_def keep none)
qed

text \<open>
  C4, as amended. For an array of annotated results (objects whose \<open>qualityRank\<close> is a
  number other than NaN and whose language fields hold strings), \<open>sortAnnotatedResults\<close>
  with the sort mode \<open>language_quality_size\<close> and a non-empty string as preferred language
  returns the results that match the language followed by those that do not, each part a
  rearrangement of the matching (non-matching) results of the input in which a result of
  higher rank stands before one of lower rank and, among equal ranks, a larger size
  before a smaller one.
\<close>

theorem sortAnnotatedResults_language_first:
  assumes "list_all annotatedResult xs" and "p \<noteq> []"
  shows "\<exists>preferred others.
     sortAnnotatedResults rt (Arr xs) (Str ''language_quality_size'') (Str p)
       = Inr (Arr (preferred @ others))
     \<and> list_all (matchesLanguage rt (Str p)) preferred
     \<and> list_all (\<lambda>x. resultMatchesPreferredLanguage rt x (Str p) = Inr False) others
     \<and> mset preferred = mset (filter (matchesLanguage rt (Str p)) xs)
     \<and> mset others = mset (filter (\<lambda>x. \<not> matchesLanguage rt (Str p) x) xs)
     \<and> sorted_wrt precedesByQualityThenSize preferred
     \<and> sorted_wrt precedesByQualityThenSize others"
proof (cases "xs = []")
  case True
  then show ?thesis
    by (auto simp: sortAnnotatedResults_def intro!: exI[of _ "[]"])
next
  case False
  let ?m = "matchesLanguage rt (Str p)"
  let ?P = "filter ?m xs" and ?O = "filter (\<lambda>x. \<not> ?m x) xs"
  have annP: "list_all annotatedResult ?P" and annO: "list_all annotatedResult ?O"
    using assms(1) by (simp_all add: list_all_iff)
  obtain ps where ps: "array_sort (compareQualityThenSize rt) ?P = Inr ps"
    "sorted_wrt precedesByQualityThenSize ps" "mset ps = mset ?P"
    using array_sort_annotated[OF annP, of rt] by blast
  obtain os where os: "array_sort (compareQualityThenSize rt) ?O = Inr os"
    "sorted_wrt precedesByQualityThenSize os" "mset os = mset ?O"
    using array_sort_annotated[OF annO, of rt] by blast
  have out: "sortAnnotatedResults rt (Arr xs) (Str ''language_quality_size'') (Str p)
       = Inr (Arr (ps @ os))"
    using False assms(2) ps(1) os(1) partitionByLanguage_total[OF assms(1), of rt p]
    by (simp add: sortAnnotatedResults_def languageFirst_def)
  have setP: "set ps = set ?P" using ps(3) by (metis set_mset_mset)
  have setO: "set os = set ?O" using os(3) by (metis set_mset_mset)
  have allP: "list_all ?m ps"
    using setP by (simp add: list_all_iff)
  have allO: "list_all (\<lambda>x. resultMatchesPreferredLanguage rt x (Str p) = Inr False) os"
  proof -
    have "resultMatchesPreferredLanguage rt x (Str p) = Inr False" if "x \<in> set os" for x
    proof -
      from that setO have "x \<in> set xs" "\<not> ?m x" by auto
      moreover from \<open>x \<in> set xs\<close> assms(1) obtain b
        where "resultMatchesPreferredLanguage rt x (Str p) = Inr b"
        using resultMatches_total[of x rt p] by (auto simp: list_all_iff)
      ultimately show ?thesis by (cases b) (auto simp: matchesLanguage_def)
    qed
    then show ?thesis by (simp add: list_all_iff)
  qed
  show ?thesis
    using out allP allO ps(2,3) os(2,3) by blast
qed

text \<open>The function on four results, two of them in the preferred language.\<close>

lemma sortAnnotatedResults_example:
  "sortAnnotatedResults asciiRuntime
     (Arr [Obj [(''qualityRank'', Num (Fin 2)), (''size'', Num (Fin 100)), (''language'', Str ''en'')],
           Obj [(''qualityRank'', Num (Fin 5)), (''size'', Num (Fin 50)), (''language'', Str ''de'')],
           Obj [(''qualityRank'', Num (Fin 5)), (''size'', Num (Fin 70)),
                (''languages'', Arr [Str ''fr'', Str ''EN''])],
           Obj [(''qualityRank'', Num (Fin 5)), (''language'', Str ''DE'')]])
     (Str ''language_quality_size'') (Str ''En'')
   = Inr (Arr [Obj [(''qualityRank'', Num (Fin 5)), (''size'', Num (Fin 70)),
                    (''languages'', Arr [Str ''fr'', Str ''EN''])],
               Obj [(''qualityRank'', Num (Fin 2)), (''size'', Num (Fin 100)), (''language'', Str ''en'')],
               Obj [(''qualityRank'', Num (Fin 5)), (''size'', Num (Fin 50)), (''language'', Str ''de'')],
               Obj [(''qualityRank'', Num (Fin 5)), (''language'', Str ''DE'')]])"
  by (simp add: sortAnnotatedResults_def languageFirst_def resultMatchesPreferredLanguage_def
      call_toLowerCase_def asciiRuntime_def asciiLower_def array_sort_def
      compareQualityThenSize_def get_def nullish_def toNumber_def finiteOrZero_def)

theorem sortAnnotatedResults_language_first_witness:
  "list_all annotatedResult
     [Obj [(''qualityRank'', Num (Fin 2)), (''size'', Num (Fin 100)), (''language'', Str ''en'')],
      Obj [(''qualityRank'', Num (Fin 5)), (''size'', Num (Fin 50)), (''language'', Str ''de'')],
      Obj [(''qualityRank'', Num (Fin 5)), (''size'', Num (Fin 70)),
           (''languages'', Arr [Str ''fr'', Str ''EN''])],
      Obj [(''qualityRank'', Num (Fin 5)), (''language'', Str ''DE'')]]
   \<and> ''En'' \<noteq> []
   \<and> (\<exists>preferred others.
        sortAnnotatedResults asciiRuntime
          (Arr [Obj [(''qualityRank'', Num (Fin 2)), (''size'', Num (Fin 100)), (''language'', Str ''en'')],
                Obj [(''qualityRank'', Num (Fin 5)), (''size'', Num (Fin 50)), (''language'', Str ''de'')],
                Obj [(''qualityRank'', Num (Fin 5)), (''size'', Num (Fin 70)),
                     (''languages'', Arr [Str ''fr'', Str ''EN''])],
                Obj [(''qualityRank'', Num (Fin 5)), (''language'', Str ''DE'')]])
          (Str ''language_quality_size'') (Str ''En'')
        = Inr (Arr (preferred @ others))
        \<and> length preferred = 2 \<and> length others = 2
        \<and> list_all (matchesLanguage asciiRuntime (Str ''En'')) preferred
        \<and> list_all (\<lambda>x. resultMatchesPreferredLanguage asciiRuntime x (Str ''En'') = Inr False) others
        \<and> sorted_wrt precedesByQualityThenSize preferred
        \<and> sorted_wrt precedesByQualityThenSize others)"
proof -
  let ?xs = "[Obj [(''qualityRank'', Num (Fin 2)), (''size'', Num (Fin 100)), (''language'', Str ''en'')],
      Obj [(''qualityRank'', Num (Fin 5)), (''size'', Num (Fin 50)), (''language'', Str ''de'')],
      Obj [(''qualityRank'', Num (Fin 5)), (''size'', Num (Fin 70)),
           (''languages'', Arr [Str ''fr'', Str ''EN''])],
      Obj [(''qualityRank'', Num (Fin 5)), (''language'', Str ''DE'')]]"
  have h1: "list_all annotatedResult ?xs"
    by (simp add: annotatedResult_def)
  have h2: "''En'' \<noteq> []" by simp
  have m: "filter (matchesLanguage asciiRuntime (Str ''En'')) ?xs = [?xs ! 0, ?xs ! 2]"
    by (simp add: matchesLanguage_def resultMatchesPreferredLanguage_def
      call_toLowerCase_def asciiRuntime_def asciiLower_def)
  have n: "filter (\<lambda>x. \<not> matchesLanguage asciiRuntime (Str ''En'') x) ?xs = [?xs ! 1, ?xs ! 3]"
    by (simp add: matchesLanguage_def resultMatchesPreferredLanguage_def
      call_toLowerCase_def asciiRuntime_def asciiLower_def)
  from sortAnnotatedResults_language_first[OF h1 h2, of asciiRuntime]
  obtain preferred others where r:
    "sortAnnotatedResults asciiRuntime (Arr ?xs) (Str ''language_quality_size'') (Str ''En'')
       = Inr (Arr (preferred @ others))"
    "list_all (matchesLanguage asciiRuntime (Str ''En'')) preferred"
    "list_all (\<lambda>x. resultMatchesPreferredLanguage asciiRuntime x (Str ''En'') = Inr False) others"
    "mset preferred = mset (filter (matchesLanguage asciiRuntime (Str ''En'')) ?xs)"
    "mset others = mset (filter (\<lambda>x. \<not> matchesLanguage asciiRuntime (Str ''En'') x) ?xs)"
    "sorted_wrt precedesByQualityThenSize preferred"
    "sorted_wrt precedesByQualityThenSize others"
    by blast
  from r(4) have "length preferred = 2"
    unfolding m by (metis length_Cons list.size(3) mset_eq_length numeral_2_eq_2)
  moreover from r(5) have "length others = 2"
    unfolding n by (metis length_Cons list.size(3) mset_eq_length numeral_2_eq_2)
  ultimately show ?thesis
    using h1 h2 r(1,2,3,6,7) by blast
qed

text \<open>
  The claim as stated, for every array of results, fails for a result without a
  \<open>qualityRank\<close>: the comparator returns NaN against it, in either order of the arguments,
  which the sort takes as a tie, so each of its neighbours stays where it is. Of three
  results that do not match the language, of rank 1, without a rank and of rank 2, the
  one of rank 1 is returned before the one of rank 2, although the comparator puts the
  rank 2 first.
\<close>

theorem sortAnnotatedResults_missing_rank_counterexample:
  "sortAnnotatedResults asciiRuntime
     (Arr [Obj [(''title'', Str ''a''), (''qualityRank'', Num (Fin 1))],
           Obj [(''title'', Str ''b'')],
           Obj [(''title'', Str ''c''), (''qualityRank'', Num (Fin 2))]])
     (Str ''language_quality_size'') (Str ''en'')
   = Inr (Arr [Obj [(''title'', Str ''a''), (''qualityRank'', Num (Fin 1))],
               Obj [(''title'', Str ''b'')],
               Obj [(''title'', Str ''c''), (''qualityRank'', Num (Fin 2))]])
   \<and> resultMatchesPreferredLanguage asciiRuntime
        (Obj [(''title'', Str ''a''), (''qualityRank'', Num (Fin 1))]) (Str ''en'') = Inr False
   \<and> resultMatchesPreferredLanguage asciiRuntime
        (Obj [(''title'', Str ''b'')]) (Str ''en'') = Inr False
   \<and> resultMatchesPreferredLanguage asciiRuntime
        (Obj [(''title'', Str ''c''), (''qualityRank'', Num (Fin 2))]) (Str ''en'') = Inr False
   \<and> compareQualityThenSize asciiRuntime
        (Obj [(''title'', Str ''a''), (''qualityRank'', Num (Fin 1))])
        (Obj [(''title'', Str ''c''), (''qualityRank'', Num (Fin 2))]) = Inr (Fin 1)
   \<and> compareQualityThenSize asciiRuntime
        (Obj [(''title'', Str ''a''), (''qualityRank'', Num (Fin 1))])
        (Obj [(''title'', Str ''b'')]) = Inr NaN
   \<and> compareQualityThenSize asciiRuntime
        (Obj [(''title'', Str ''b'')])
        (Obj [(''title'', Str ''a''), (''qualityRank'', Num (Fin 1))]) = Inr NaN
   \<and> compareQualityThenSize asciiRuntime
        (Obj [(''title'', Str ''b'')])
        (Obj [(''title'', Str ''c''), (''qualityRank'', Num (Fin 2))]) = Inr NaN
   \<and> compareQualityThenSize asciiRuntime
        (Obj [(''title'', Str ''c''), (''qualityRank'', Num (Fin 2))])
        (Obj [(''title'', Str ''b'')]) = Inr NaN
   \<and> \<not> precedesByQualityThenSize
        (Obj [(''title'', Str ''a''), (''qualityRank'', Num (Fin 1))])
        (Obj [(''title'', Str ''c''), (''qualityRank'', Num (Fin 2))])"
  by (simp add: sortAnnotatedResults_def languageFirst_def resultMatchesPreferredLanguage_def
      call_toLowerCase_def asciiRuntime_def asciiLower_def array_sort_def
      compareQualityThenSize_def get_def nullish_def toNumber_def finiteOrZero_def
      precedesByQualityThenSize_def rankOf_def sizeOrZero_def)

subsection \<open>Calls that throw\<close>

text \<open>
  C6. The claim is that every function of the post-processor returns on every input. The
  functions guard against many malformed inputs, but not all calls return: an array with
  a \<open>null\<close> entry passes the size filter and then makes the comparator of the sort read
  \<open>qualityRank\<close> of \<open>null\<close>; a \<open>null\<close> candidate makes \<open>triageDecisionsMatchStatuses\<close>
  read its \<open>downloadUrl\<close>; a \<open>language\<close> that is a number has no \<open>toLowerCase\<close>. Each of
  these calls throws a \<open>TypeError\<close>.
\<close>

theorem postprocessor_throws:
  "prepareSortedResults rt
      (Arr [Null, Obj [(''title'', Str ''A''), (''qualityRank'', Num (Fin 1))]])
      (Obj [(''maxSizeBytes'', Num (Fin 1000))]) = Inl TypeError
   \<and> sortAnnotatedResults rt
      (Arr [Null, Obj [(''title'', Str ''A''), (''qualityRank'', Num (Fin 1))]])
      Undefined Undefined = Inl TypeError
   \<and> triageDecisionsMatchStatuses
      (MapV [(Str ''u'', Obj [(''status'', Str ''verified'')])]) (Arr [Null])
      (SetV [Str ''verified'']) = Inl TypeError
   \<and> resultMatchesPreferredLanguage rt (Obj [(''language'', Num (Fin 5))]) (Str ''en'')
      = Inl TypeError"
  by (simp add: prepareSortedResults_def sortAnnotatedResults_def languageFirst_def
      applyMaxSizeFilter_def positiveFinite_def sizeWithinLimit_def opt_get_def
      array_sort_def compareQualityThenSize_def get_def nullish_def
      triageDecisionsMatchStatuses_def lengthIsZero_def iterate_def
      resultMatchesPreferredLanguage_def call_toLowerCase_def)

theorem postprocessor_throws_witness:
  "prepareSortedResults asciiRuntime
      (Arr [Null, Obj [(''title'', Str ''A''), (''qualityRank'', Num (Fin 1))]])
      (Obj [(''maxSizeBytes'', Num (Fin 1000))]) = Inl TypeError
   \<and> resultMatchesPreferredLanguage asciiRuntime (Obj [(''language'', Num (Fin 5))]) (Str ''en'')
      = Inl TypeError"
  using postprocessor_throws [of asciiRuntime] by simp

subsection \<open>What prepareSortedResults changes\<close>

lemma bindE_eq_Inr: "bindE r f = Inr y \<longleftrightarrow> (\<exists>v. r = Inr v \<and> f v = Inr y)"
  by (cases r) simp_all

lemma sort_st_value:
  assumes "a < length st"
    and "sortAnnotatedResults_st rt st (ArrayAt a) sortMode lang = Inr (st', r)"
  shows "sortAnnotatedResults rt (Arr (st ! a)) sortMode lang = Inr (valueOf st' r)"
  using assms
  by (auto simp: sortAnnotatedResults_st_def sortAnnotatedResults_def contents_def valueOf_def
      allocate_def bindE_eq_Inr nth_append split: if_splits)

lemma sort_st_frame:
  assumes "a < length st"
    and "sortAnnotatedResults_st rt st (ArrayAt a) sortMode lang = Inr (st', r)"
  shows "length st \<le> length st' \<and> (\<forall>b < length st. b \<noteq> a \<longrightarrow> st' ! b = st ! b)"
  using assms
  by (auto simp: sortAnnotatedResults_st_def contents_def allocate_def bindE_eq_Inr nth_append
      split: if_splits)

lemma sort_st_copy:
  assumes "a < length st"
    and "sortAnnotatedResults_st rt st (ArrayAt a) sortMode lang = Inr (st', r)"
    and "languageFirst sortMode lang \<or> st ! a = []"
  shows "st' ! a = st ! a"
  using assms
  by (auto simp: sortAnnotatedResults_st_def contents_def allocate_def bindE_eq_Inr nth_append
      split: if_splits)

lemma sort_st_in_place:
  assumes "a < length st"
    and "sortAnnotatedResults_st rt st (ArrayAt a) sortMode lang = Inr (st', r)"
    and "\<not> languageFirst sortMode lang"
  shows "r = ArrayAt a \<and> array_sort (compareQualityThenSize rt) (st ! a) = Inr (st' ! a)"
  using assms
  by (auto simp: sortAnnotatedResults_st_def contents_def allocate_def bindE_eq_Inr nth_append
      array_sort_def split: if_splits)

lemma get_option:
  "get (if options = Undefined then Obj [] else options) k = Inr v \<Longrightarrow> v = optionOf options k"
  by (auto simp: get_def optionOf_def split: if_splits)

text \<open>
  C5, as amended. When \<open>prepareSortedResults\<close> returns, the contents of the array it
  returns are those the function computes from the contents of \<open>results\<close> and from
  \<open>options\<close>, and no array other than \<open>results\<close> is changed. \<open>results\<close> itself is left as
  it was when \<open>maxSizeBytes\<close> is a positive finite number (the filter returns a new array),
  when the language-first mode is taken, or when \<open>results\<close> is empty. Otherwise, with no
  size limit and the default sort, \<open>results\<close> is sorted in place and is the array returned.
\<close>

theorem prepareSortedResults_frame:
  assumes a: "a < length st"
    and run: "prepareSortedResults_st rt st (ArrayAt a) options = Inr (st', r)"
  shows "prepareSortedResults rt (Arr (st ! a)) options = Inr (valueOf st' r)
     \<and> length st \<le> length st'
     \<and> (\<forall>b < length st. b \<noteq> a \<longrightarrow> st' ! b = st ! b)
     \<and> (positiveFinite (optionOf options ''maxSizeBytes'')
          \<or> languageFirst (optionOf options ''sortMode'') (optionOf options ''preferredLanguage'')
          \<or> st ! a = []
        \<longrightarrow> st' ! a = st ! a)
     \<and> (\<not> positiveFinite (optionOf options ''maxSizeBytes'')
          \<and> \<not> languageFirst (optionOf options ''sortMode'') (optionOf options ''preferredLanguage'')
        \<longrightarrow> r = ArrayAt a \<and> array_sort (compareQualityThenSize rt) (st ! a) = Inr (st' ! a))"
proof -
  let ?o = "if options = Undefined then Obj [] else options"
  let ?m = "optionOf options ''maxSizeBytes''"
  let ?mode = "optionOf options ''sortMode''"
  let ?lang = "optionOf options ''preferredLanguage''"
  from run obtain m mode lang where g:
    "get ?o ''maxSizeBytes'' = Inr m" "get ?o ''sortMode'' = Inr mode"
    "get ?o ''preferredLanguage'' = Inr lang"
    and rest: "(let (st1, working) = applyMaxSizeFilter_st st (ArrayAt a) m in
         sortAnnotatedResults_st rt st1 working mode lang) = Inr (st', r)"
    by (auto simp: prepareSortedResults_st_def Let_def bindE_eq_Inr)
  have m: "m = ?m" and mode: "mode = ?mode" and lang: "lang = ?lang"
    using g by (simp_all add: get_option)
  have vl: "prepareSortedResults rt (Arr (st ! a)) options
      = sortAnnotatedResults rt (applyMaxSizeFilter (Arr (st ! a)) ?m) ?mode ?lang"
    using g m mode lang by (simp add: prepareSortedResults_def Let_def)
  show ?thesis
  proof (cases "positiveFinite ?m")
    case True
    then have fin: "isFinite ?m"
      by (auto simp: positiveFinite_def split: jsval.splits jsnum.splits)
    let ?ys = "filter (sizeWithinLimit ?m) (st ! a)"
    let ?st1 = "st @ [?ys]"
    have filt: "applyMaxSizeFilter_st st (ArrayAt a) ?m = (?st1, ArrayAt (length st))"
      using True fin a by (simp add: applyMaxSizeFilter_st_def allocate_def contents_def)
    have sort: "sortAnnotatedResults_st rt ?st1 (ArrayAt (length st)) ?mode ?lang = Inr (st', r)"
      using rest filt m mode lang by simp
    have len1: "length st < length ?st1" by simp
    have frame: "length ?st1 \<le> length st'"
      "\<forall>b < length ?st1. b \<noteq> length st \<longrightarrow> st' ! b = ?st1 ! b"
      using sort_st_frame[OF len1 sort] by simp_all
    have same: "\<forall>b < length st. st' ! b = st ! b"
    proof (intro allI impI)
      fix b assume "b < length st"
      then show "st' ! b = st ! b"
        using frame(2) by (simp add: nth_append)
    qed
    have "sortAnnotatedResults rt (Arr (?st1 ! length st)) ?mode ?lang = Inr (valueOf st' r)"
      using sort_st_value[OF len1 sort] .
    then have "prepareSortedResults rt (Arr (st ! a)) options = Inr (valueOf st' r)"
      using vl True fin by (simp add: applyMaxSizeFilter_def)
    then show ?thesis
      using True same a frame(1) by simp
  next
    case False
    have filt: "applyMaxSizeFilter_st st (ArrayAt a) ?m = (st, ArrayAt a)"
      using False by (simp add: applyMaxSizeFilter_st_def)
    have sort: "sortAnnotatedResults_st rt st (ArrayAt a) ?mode ?lang = Inr (st', r)"
      using rest filt m mode lang by simp
    have "sortAnnotatedResults rt (Arr (st ! a)) ?mode ?lang = Inr (valueOf st' r)"
      using sort_st_value[OF a sort] .
    then have v: "prepareSortedResults rt (Arr (st ! a)) options = Inr (valueOf st' r)"
      using vl False by (simp add: applyMaxSizeFilter_def)
    have c: "languageFirst ?mode ?lang \<or> st ! a = [] \<longrightarrow> st' ! a = st ! a"
      using sort_st_copy[OF a sort] by blast
    have p: "\<not> languageFirst ?mode ?lang \<longrightarrow>
        r = ArrayAt a \<and> array_sort (compareQualityThenSize rt) (st ! a) = Inr (st' ! a)"
      using sort_st_in_place[OF a sort] by blast
    show ?thesis
      using v c p False sort_st_frame[OF a sort] by simp
  qed
qed

text \<open>
  The claim as stated fails: with no size limit and no sort mode, an array of two results
  in ascending rank is reordered by the call.
\<close>

theorem prepareSortedResults_pure_counterexample:
  "prepareSortedResults_st asciiRuntime
      [[Obj [(''title'', Str ''A''), (''qualityRank'', Num (Fin 1))],
        Obj [(''title'', Str ''B''), (''qualityRank'', Num (Fin 2))]]]
      (ArrayAt 0) (Obj [])
    = Inr ([[Obj [(''title'', Str ''B''), (''qualityRank'', Num (Fin 2))],
             Obj [(''title'', Str ''A''), (''qualityRank'', Num (Fin 1))]]],
           ArrayAt 0)
   \<and> [[Obj [(''title'', Str ''B''), (''qualityRank'', Num (Fin 2))],
         Obj [(''title'', Str ''A''), (''qualityRank'', Num (Fin 1))]]] ! 0
     \<noteq> [[Obj [(''title'', Str ''A''), (''qualityRank'', Num (Fin 1))],
          Obj [(''title'', Str ''B''), (''qualityRank'', Num (Fin 2))]]] ! 0"
  by (simp add: prepareSortedResults_st_def applyMaxSizeFilter_st_def
      sortAnnotatedResults_st_def languageFirst_def contents_def get_def nullish_def
      array_sort_def compareQualityThenSize_def toNumber_def)

text \<open>With a size limit the input array keeps its contents and a new array is returned.\<close>

theorem prepareSortedResults_frame_witness:
  "(0::nat) < length [[Obj [(''qualityRank'', Num (Fin 1)), (''size'', Num (Fin 10))],
                       Obj [(''qualityRank'', Num (Fin 2)), (''size'', Num (Fin 900))],
                       Obj [(''qualityRank'', Num (Fin 3)), (''size'', Num (Fin 20))]]]
   \<and> prepareSortedResults_st asciiRuntime
        [[Obj [(''qualityRank'', Num (Fin 1)), (''size'', Num (Fin 10))],
          Obj [(''qualityRank'', Num (Fin 2)), (''size'', Num (Fin 900))],
          Obj [(''qualityRank'', Num (Fin 3)), (''size'', Num (Fin 20))]]]
        (ArrayAt 0) (Obj [(''maxSizeBytes'', Num (Fin 100))])
      = Inr ([[Obj [(''qualityRank'', Num (Fin 1)), (''size'', Num (Fin 10))],
               Obj [(''qualityRank'', Num (Fin 2)), (''size'', Num (Fin 900))],
               Obj [(''qualityRank'', Num (Fin 3)), (''size'', Num (Fin 20))]],
              [Obj [(''qualityRank'', Num (Fin 3)), (''size'', Num (Fin 20))],
               Obj [(''qualityRank'', Num (Fin 1)), (''size'', Num (Fin 10))]]],
             ArrayAt 1)
   \<and> prepareSortedResults asciiRuntime
        (Arr [Obj [(''qualityRank'', Num (Fin 1)), (''size'', Num (Fin 10))],
              Obj [(''qualityRank'', Num (Fin 2)), (''size'', Num (Fin 900))],
              Obj [(''qualityRank'', Num (Fin 3)), (''size'', Num (Fin 20))]])
        (Obj [(''maxSizeBytes'', Num (Fin 100))])
      = Inr (Arr [Obj [(''qualityRank'', Num (Fin 3)), (''size'', Num (Fin 20))],
                  Obj [(''qualityRank'', Num (Fin 1)), (''size'', Num (Fin 10))]])
   \<and> positiveFinite (optionOf (Obj [(''maxSizeBytes'', Num (Fin 100))]) ''maxSizeBytes'')"
proof -
  let ?st = "[[Obj [(''qualityRank'', Num (Fin 1)), (''size'', Num (Fin 10))],
               Obj [(''qualityRank'', Num (Fin 2)), (''size'', Num (Fin 900))],
               Obj [(''qualityRank'', Num (Fin 3)), (''size'', Num (Fin 20))]]]"
  let ?st' = "?st @ [[Obj [(''qualityRank'', Num (Fin 3)), (''size'', Num (Fin 20))],
               Obj [(''qualityRank'', Num (Fin 1)), (''size'', Num (Fin 10))]]]"
  have a: "(0::nat) < length ?st" by simp
  have run: "prepareSortedResults_st asciiRuntime ?st (ArrayAt 0)
      (Obj [(''maxSizeBytes'', Num (Fin 100))]) = Inr (?st', ArrayAt 1)"
    by (simp add: prepareSortedResults_st_def applyMaxSizeFilter_st_def
      sortAnnotatedResults_st_def languageFirst_def contents_def get_def nullish_def
      array_sort_def compareQualityThenSize_def toNumber_def positiveFinite_def
      sizeWithinLimit_def opt_get_def allocate_def)
  have pos: "positiveFinite (optionOf (Obj [(''maxSizeBytes'', Num (Fin 100))]) ''maxSizeBytes'')"
    by (simp add: positiveFinite_def optionOf_def)
  show ?thesis
    using prepareSortedResults_frame[OF a run] a run pos
    by (simp add: valueOf_def contents_def)
qed

subsection \<open>The title map of the triage decisions\<close>


lemma titleEntry_status [simp]: "field (titleEntry d u t) ''status'' = field d ''status''"
  by (simp add: titleEntry_def)

lemma titleEntry_truthy [simp]: "truthy (titleEntry d u t)"
  by (simp add: titleEntry_def)





lemma titleEntry_url [simp]: "field (titleEntry d u t) ''sourceDownloadUrl'' = u"
  by (simp add: titleEntry_def)

lemma titleEntry_title [simp]: "field (titleEntry d u t) ''normalizedTitle'' = t"
  by (simp add: titleEntry_def)





subsection \<open>The candidates to triage\<close>

lemma later_keys:
  "filter (\<lambda>x. truthy x \<and> dedupKey ps x \<notin> set (seen @ [k])) rs
     = filter (\<lambda>y. dedupKey ps y \<noteq> k)
         (filter (\<lambda>x. truthy x \<and> dedupKey ps x \<notin> set seen) rs)"
  by (induction rs) auto

lemma firstOfEachKey_new:
  assumes "truthy r" and "dedupKey ps r \<notin> set seen"
  shows "selected @ firstOfEachKey (dedupKey ps)
           (filter (\<lambda>x. truthy x \<and> dedupKey ps x \<notin> set seen) (r # rs))
     = (selected @ [r]) @ firstOfEachKey (dedupKey ps)
           (filter (\<lambda>x. truthy x \<and> dedupKey ps x \<notin> set (seen @ [dedupKey ps r])) rs)"
  unfolding later_keys using assms by simp

lemma firstOfEachKey_old:
  assumes "\<not> (truthy r \<and> dedupKey ps r \<notin> set seen)"
  shows "filter (\<lambda>x. truthy x \<and> dedupKey ps x \<notin> set seen) (r # rs)
     = filter (\<lambda>x. truthy x \<and> dedupKey ps x \<notin> set seen) rs"
  using assms by auto

lemma prioritizeLoop_uncapped:
  assumes "\<forall>n. \<not> num_le cap (Fin n)"
    and "\<forall>x\<in>set xs. truthy x \<longrightarrow> primitive (dedupKey ps x)"
  shows "prioritizeLoop ps cap seen selected xs
     = selected @ firstOfEachKey (dedupKey ps)
         (filter (\<lambda>x. truthy x \<and> dedupKey ps x \<notin> set seen) xs)"
  using assms(2)
proof (induction xs arbitrary: seen selected)
  case Nil
  then show ?case by simp
next
  case (Cons r rs)
  from Cons.prems have keys: "\<forall>x\<in>set rs. truthy x \<longrightarrow> primitive (dedupKey ps x)"
    and key: "truthy r \<longrightarrow> primitive (dedupKey ps r)" by simp_all
  show ?case
  proof (cases "truthy r \<and> dedupKey ps r \<notin> set seen")
    case False
    have "prioritizeLoop ps cap seen selected (r # rs) = prioritizeLoop ps cap seen selected rs"
      using False key by (auto simp: Let_def hasKey_def)
    then show ?thesis
      unfolding firstOfEachKey_old[OF False] by (simp only: Cons.IH[OF keys])
  next
    case True
    then have t: "truthy r" and k: "dedupKey ps r \<notin> set seen" by simp_all
    have "prioritizeLoop ps cap seen selected (r # rs)
        = prioritizeLoop ps cap (seen @ [dedupKey ps r]) (selected @ [r]) rs"
      using True assms(1) by (simp add: Let_def hasKey_def)
    then show ?thesis
      by (simp only: Cons.IH[OF keys] firstOfEachKey_new[OF t k])
  qed
qed

lemma length_firstOfEachKey_le: "length (firstOfEachKey key xs) \<le> length xs"
proof (induction "length xs" arbitrary: xs rule: less_induct)
  case less
  show ?case
  proof (cases xs)
    case Nil
    then show ?thesis by simp
  next
    case (Cons y ys)
    have "length (filter (\<lambda>z. key z \<noteq> key y) ys) < length xs"
      using Cons by (simp add: le_imp_less_Suc)
    from less[OF this] have "length (firstOfEachKey key (filter (\<lambda>z. key z \<noteq> key y) ys))
        \<le> length ys"
      using length_filter_le[of "\<lambda>z. key z \<noteq> key y" ys] by linarith
    with Cons show ?thesis by simp
  qed
qed

lemma reaches_cap: "1 \<le> c \<Longrightarrow> c \<le> real n \<longleftrightarrow> nat \<lceil>c\<rceil> \<le> n"
  by (simp add: ceiling_le_iff nat_le_iff)

lemma prioritizeLoop_capped:
  assumes "1 \<le> c" and "length selected < nat \<lceil>c\<rceil>"
    and "\<forall>x\<in>set xs. truthy x \<longrightarrow> primitive (dedupKey ps x)"
  shows "prioritizeLoop ps (Fin c) seen selected xs
     = take (nat \<lceil>c\<rceil>)
         (selected @ firstOfEachKey (dedupKey ps)
            (filter (\<lambda>x. truthy x \<and> dedupKey ps x \<notin> set seen) xs))"
  using assms(2,3)
proof (induction xs arbitrary: seen selected)
  case Nil
  then show ?case by simp
next
  case (Cons r rs)
  from Cons.prems(2) have keys: "\<forall>x\<in>set rs. truthy x \<longrightarrow> primitive (dedupKey ps x)"
    and key: "truthy r \<longrightarrow> primitive (dedupKey ps r)" by simp_all
  show ?case
  proof (cases "truthy r \<and> dedupKey ps r \<notin> set seen")
    case False
    have "prioritizeLoop ps (Fin c) seen selected (r # rs)
        = prioritizeLoop ps (Fin c) seen selected rs"
      using False key by (auto simp: Let_def hasKey_def)
    then show ?thesis
      unfolding firstOfEachKey_old[OF False] by (simp only: Cons.IH[OF Cons.prems(1) keys])
  next
    case True
    have new: "selected @ firstOfEachKey (dedupKey ps)
           (filter (\<lambda>x. truthy x \<and> dedupKey ps x \<notin> set seen) (r # rs))
     = (selected @ [r]) @ firstOfEachKey (dedupKey ps)
           (filter (\<lambda>x. truthy x \<and> dedupKey ps x \<notin> set (seen @ [dedupKey ps r])) rs)"
      using True by (intro firstOfEachKey_new) simp_all
    show ?thesis
    proof (cases "nat \<lceil>c\<rceil> \<le> length (selected @ [r])")
      case full: True
      have l: "length (selected @ [r]) = Suc (length selected)" by simp
      have eq: "nat \<lceil>c\<rceil> = length (selected @ [r])"
        using full Cons.prems(1) l by linarith
      have "num_le (Fin c) (Fin (real (length (selected @ [r]))))"
        using full assms(1) reaches_cap[of c "length (selected @ [r])"] by simp
      then have "prioritizeLoop ps (Fin c) seen selected (r # rs) = selected @ [r]"
        using True by (simp add: Let_def hasKey_def)
      then show ?thesis
        unfolding new eq by simp
    next
      case room: False
      then have less: "length (selected @ [r]) < nat \<lceil>c\<rceil>" by linarith
      have "\<not> num_le (Fin c) (Fin (real (length (selected @ [r]))))"
        using room assms(1) reaches_cap[of c "length (selected @ [r])"] by simp
      then have "prioritizeLoop ps (Fin c) seen selected (r # rs)
          = prioritizeLoop ps (Fin c) (seen @ [dedupKey ps r]) (selected @ [r]) rs"
        using True by (simp add: Let_def hasKey_def)
      then show ?thesis
        unfolding new by (simp only: Cons.IH[OF less keys])
    qed
  qed
qed

lemma mathMax1_cases:
  "mathMax1 n = (case n of NaN \<Rightarrow> NaN | PosInf \<Rightarrow> PosInf | NegInf \<Rightarrow> Fin 1 | Fin r \<Rightarrow> Fin (max 1 r))"
  by (cases n) simp_all

text \<open>
  C10, as amended. For an array of results whose de-duplication keys (\<open>normalizedTitle\<close>,
  else the normalized \<open>title\<close>, else \<open>downloadUrl\<close>) are strings or other primitives, the
  function drops the falsy results and keeps the first occurrence of every distinct key
  in input order. When \<open>maxCandidates\<close> is \<open>undefined\<close> (omitted), or any other value whose
  conversion to a number is NaN or \<open>+Infinity\<close>, all of them are returned. When it
  converts to a finite number \<open>n\<close>, as a number does but also \<open>null\<close> (to 0), the first
  \<open>max(1, n)\<close> of them, rounded up, are returned; when it converts to \<open>-Infinity\<close>, the
  first one. (A key that is an object is the same as itself only, so two results that
  hold equal objects as keys are both kept; the statement leaves such keys out.)
\<close>

theorem prioritizeTriageCandidates_cap:
  assumes "\<forall>x\<in>set xs. truthy x \<longrightarrow> primitive (dedupKey ps x)"
  shows
  "(toNumber rt omitted = NaN \<or> toNumber rt omitted = PosInf \<longrightarrow>
      prioritizeTriageCandidates rt ps (Arr xs) omitted
        = Arr (firstOfEachKey (dedupKey ps) (filter truthy xs)))
   \<and> (toNumber rt maxCandidates = Fin n \<longrightarrow>
      prioritizeTriageCandidates rt ps (Arr xs) maxCandidates
        = Arr (take (capCount n) (firstOfEachKey (dedupKey ps) (filter truthy xs))))
   \<and> (toNumber rt lowest = NegInf \<longrightarrow>
      prioritizeTriageCandidates rt ps (Arr xs) lowest
        = Arr (take 1 (firstOfEachKey (dedupKey ps) (filter truthy xs))))
   \<and> toNumber rt Undefined = NaN
   \<and> toNumber rt Null = Fin 0"
proof (intro conjI impI)
  assume "toNumber rt omitted = NaN \<or> toNumber rt omitted = PosInf"
  then have "\<forall>n. \<not> num_le (mathMax1 (toNumber rt omitted)) (Fin n)" by auto
  from prioritizeLoop_uncapped[OF this assms, of "[]" "[]"]
  show "prioritizeTriageCandidates rt ps (Arr xs) omitted
        = Arr (firstOfEachKey (dedupKey ps) (filter truthy xs))"
    by (cases xs) (simp_all add: prioritizeTriageCandidates_def)
next
  assume n: "toNumber rt maxCandidates = Fin n"
  have "prioritizeLoop ps (Fin (max 1 n)) [] [] xs
     = take (nat \<lceil>max 1 n\<rceil>) ([] @ firstOfEachKey (dedupKey ps)
         (filter (\<lambda>x. truthy x \<and> dedupKey ps x \<notin> set []) xs))"
    by (rule prioritizeLoop_capped) (simp_all add: assms)
  then show "prioritizeTriageCandidates rt ps (Arr xs) maxCandidates
        = Arr (take (capCount n) (firstOfEachKey (dedupKey ps) (filter truthy xs)))"
    using n by (cases xs) (simp_all add: prioritizeTriageCandidates_def capCount_def)
next
  assume n: "toNumber rt lowest = NegInf"
  have "prioritizeLoop ps (Fin 1) [] [] xs
     = take (nat \<lceil>1::real\<rceil>) ([] @ firstOfEachKey (dedupKey ps)
         (filter (\<lambda>x. truthy x \<and> dedupKey ps x \<notin> set []) xs))"
    by (rule prioritizeLoop_capped) (simp_all add: assms)
  then show "prioritizeTriageCandidates rt ps (Arr xs) lowest
        = Arr (take 1 (firstOfEachKey (dedupKey ps) (filter truthy xs)))"
    using n by (cases xs) (simp_all add: prioritizeTriageCandidates_def)
next
  show "toNumber rt Undefined = NaN" by (simp add: toNumber_def)
  show "toNumber rt Null = Fin 0" by (simp add: toNumber_def)
qed

text \<open>
  The claim as stated fails for \<open>null\<close>, which is not a number: \<open>Math.max(1, null)\<close> is 1,
  and of two results with distinct keys the first alone is returned.
\<close>

theorem prioritizeTriageCandidates_null_counterexample:
  "prioritizeTriageCandidates asciiRuntime exampleParsers
      (Arr [Obj [(''title'', Str ''Foo'')], Obj [(''title'', Str ''Bar'')]]) Null
     = Arr [Obj [(''title'', Str ''Foo'')]]
   \<and> firstOfEachKey (dedupKey exampleParsers)
        (filter truthy [Obj [(''title'', Str ''Foo'')], Obj [(''title'', Str ''Bar'')]])
     = [Obj [(''title'', Str ''Foo'')], Obj [(''title'', Str ''Bar'')]]"
  by (simp add: prioritizeTriageCandidates_def toNumber_def dedupKey_def js_or_def
      exampleParsers_def asciiLower_def Let_def hasKey_def)

text \<open>
  The example of the specification: of \<open>Foo\<close>, \<open>foo\<close> and \<open>Bar\<close> with a cap of 2 the
  function returns \<open>Foo\<close> and \<open>Bar\<close>; with the cap omitted it returns them as well, and
  all distinct titles of any longer list.
\<close>

theorem prioritizeTriageCandidates_cap_witness:
  "primitive (dedupKey exampleParsers (Obj [(''title'', Str ''Foo'')]))
   \<and> primitive (dedupKey exampleParsers (Obj [(''title'', Str ''foo'')]))
   \<and> primitive (dedupKey exampleParsers (Obj [(''title'', Str ''Bar'')]))
   \<and> primitive (dedupKey exampleParsers (Obj [(''title'', Str ''Baz'')]))
   \<and> \<not> truthy Null
   \<and> (toNumber asciiRuntime Undefined = NaN \<or> toNumber asciiRuntime Undefined = PosInf)
   \<and> prioritizeTriageCandidates asciiRuntime exampleParsers
        (Arr [Obj [(''title'', Str ''Foo'')], Null, Obj [(''title'', Str ''foo'')],
              Obj [(''title'', Str ''Bar'')], Obj [(''title'', Str ''Baz'')]]) Undefined
      = Arr [Obj [(''title'', Str ''Foo'')], Obj [(''title'', Str ''Bar'')],
             Obj [(''title'', Str ''Baz'')]]
   \<and> toNumber asciiRuntime (Num (Fin 2)) = Fin 2
   \<and> prioritizeTriageCandidates asciiRuntime exampleParsers
        (Arr [Obj [(''title'', Str ''Foo'')], Null, Obj [(''title'', Str ''foo'')],
              Obj [(''title'', Str ''Bar'')], Obj [(''title'', Str ''Baz'')]]) (Num (Fin 2))
      = Arr [Obj [(''title'', Str ''Foo'')], Obj [(''title'', Str ''Bar'')]]
   \<and> toNumber asciiRuntime (Num NegInf) = NegInf
   \<and> prioritizeTriageCandidates asciiRuntime exampleParsers
        (Arr [Obj [(''title'', Str ''Foo'')], Null, Obj [(''title'', Str ''foo'')],
              Obj [(''title'', Str ''Bar'')], Obj [(''title'', Str ''Baz'')]]) (Num NegInf)
      = Arr [Obj [(''title'', Str ''Foo'')]]"
proof -
  let ?xs = "[Obj [(''title'', Str ''Foo'')], Null, Obj [(''title'', Str ''foo'')],
              Obj [(''title'', Str ''Bar'')], Obj [(''title'', Str ''Baz'')]]"
  have firsts: "firstOfEachKey (dedupKey exampleParsers) (filter truthy ?xs)
      = [Obj [(''title'', Str ''Foo'')], Obj [(''title'', Str ''Bar'')],
         Obj [(''title'', Str ''Baz'')]]"
    by (simp add: dedupKey_def js_or_def exampleParsers_def asciiLower_def)
  have c: "capCount 2 = 2" by (simp add: capCount_def)
  have keys: "\<forall>x\<in>set ?xs. truthy x \<longrightarrow> primitive (dedupKey exampleParsers x)"
    by (simp add: dedupKey_def js_or_def exampleParsers_def)
  have u: "toNumber asciiRuntime Undefined = NaN \<or> toNumber asciiRuntime Undefined = PosInf"
    and f: "toNumber asciiRuntime (Num (Fin 2)) = Fin 2"
    and l: "toNumber asciiRuntime (Num NegInf) = NegInf"
    by (simp_all add: toNumber_def)
  show ?thesis
    using prioritizeTriageCandidates_cap
      [OF keys, where rt = asciiRuntime and omitted = Undefined
         and maxCandidates = "Num (Fin 2)" and n = 2 and lowest = "Num NegInf"]
      u f l keys
    by (simp only: firsts c) simp
qed

subsection \<open>The fields of an annotated result\<close>

lemma map_of_literal:
  "map_of (foldl (\<lambda>acc (k, v). AList.update k v acc) acc props) k
     = (case map_of (rev props) k of Some v \<Rightarrow> Some v | None \<Rightarrow> map_of acc k)"
proof (induction props arbitrary: acc)
  case Nil
  then show ?case by simp
next
  case (Cons p props)
  obtain k' v' where p: "p = (k', v')" by (cases p)
  show ?case
    by (simp add: Cons.IH p update_conv' map_add_def split: option.splits)
qed

lemma map_of_literal_Nil:
  "map_of (foldl (\<lambda>acc (k, v). AList.update k v acc) [] props) = map_of (rev props)"
  by (rule ext) (simp add: map_of_literal split: option.splits)

lemma distinct_literal:
  "distinct (map fst acc) \<Longrightarrow>
     distinct (map fst (foldl (\<lambda>acc (k, v). AList.update k v acc) acc props))"
proof (induction props arbitrary: acc)
  case Nil
  then show ?case by simp
next
  case (Cons p props)
  obtain k' v' where p: "p = (k', v')" by (cases p)
  show ?case
    using Cons.prems by (simp add: p Cons.IH distinct_update)
qed

lemma keys_literal:
  "fst ` set (foldl (\<lambda>acc (k, v). AList.update k v acc) acc props)
     = fst ` set acc \<union> fst ` set props"
proof (rule set_eqI)
  fix k
  have "k \<in> fst ` set (foldl (\<lambda>acc (k, v). AList.update k v acc) acc props)
      \<longleftrightarrow> map_of (foldl (\<lambda>acc (k, v). AList.update k v acc) acc props) k \<noteq> None"
    by (simp add: map_of_eq_None_iff)
  also have "\<dots> \<longleftrightarrow> map_of (rev props) k \<noteq> None \<or> map_of acc k \<noteq> None"
    by (simp add: map_of_literal split: option.splits)
  also have "\<dots> \<longleftrightarrow> k \<in> fst ` set acc \<union> fst ` set props"
    by (auto simp: map_of_eq_None_iff)
  finally show "k \<in> fst ` set (foldl (\<lambda>acc (k, v). AList.update k v acc) acc props)
      \<longleftrightarrow> k \<in> fst ` set acc \<union> fst ` set props" .
qed

lemma map_of_rev_distinct: "distinct (map fst kvs) \<Longrightarrow> map_of (rev kvs) = map_of kvs"
  by (rule map_of_inject_set[THEN iffD2]) (simp_all add: distinct_rev flip: rev_map)

text \<open>
  C9, as amended. For an object, \<open>annotateNzbResult\<close> returns an object that has the
  fields of the input, the fields of the parsed metadata, \<open>sortIndex\<close> and
  \<open>normalizedTitle\<close>, and no others. \<open>normalizedTitle\<close> and \<open>sortIndex\<close> hold the normalized
  title and the index given (0 when omitted); any other field the parser reports holds
  the parser's value; every remaining field of the input keeps its value. So an original
  field keeps its value when its name is not \<open>sortIndex\<close> or \<open>normalizedTitle\<close> and is not
  reported by the parser. A value that is not an object is returned as it is.
\<close>

theorem annotateNzbResult_fields:
  "(truthy result \<and> typeofObject result \<and> distinct (map fst (spreadObject result)) \<longrightarrow>
      (\<exists>out. annotateNzbResult ps result sortIndex = Obj out
         \<and> distinct (map fst out)
         \<and> fst ` set out = fst ` set (spreadObject result) \<union> fst ` set (metadataOf ps result)
                             \<union> {''sortIndex'', ''normalizedTitle''}
         \<and> map_of out ''normalizedTitle''
             = Some (normalizeReleaseTitle ps (field result ''title''))
         \<and> map_of out ''sortIndex''
             = Some (if sortIndex = Undefined then Num (Fin 0) else sortIndex)
         \<and> (\<forall>k. k \<noteq> ''sortIndex'' \<and> k \<noteq> ''normalizedTitle''
                \<and> k \<in> fst ` set (metadataOf ps result) \<longrightarrow>
                map_of out k = map_of (rev (metadataOf ps result)) k)
         \<and> (\<forall>k. k \<noteq> ''sortIndex'' \<and> k \<noteq> ''normalizedTitle''
                \<and> k \<notin> fst ` set (metadataOf ps result) \<longrightarrow>
                map_of out k = map_of (spreadObject result) k)))
   \<and> (\<not> truthy other \<or> \<not> typeofObject other \<longrightarrow> annotateNzbResult ps other sortIndex = other)"
proof (intro conjI impI)
  assume h: "truthy result \<and> typeofObject result \<and> distinct (map fst (spreadObject result))"
  define idx where "idx = (if sortIndex = Undefined then Num (Fin 0) else sortIndex)"
  define props where "props = spreadObject result @ metadataOf ps result @
     [(''sortIndex'', idx), (''normalizedTitle'', normalizeReleaseTitle ps (field result ''title''))]"
  define out where "out = foldl (\<lambda>acc (k, v). AList.update k v acc) [] props"
  have out: "annotateNzbResult ps result sortIndex = Obj out"
    using h
    by (simp add: annotateNzbResult_def objectLiteral_def metadataOf_def Let_def out_def
        props_def idx_def)
  have look: "map_of out k = map_of (rev props) k" for k
    by (simp only: out_def map_of_literal_Nil)
  have d: "distinct (map fst out)"
    unfolding out_def by (rule distinct_literal) simp
  have keys: "fst ` set out = fst ` set (spreadObject result) \<union> fst ` set (metadataOf ps result)
                             \<union> {''sortIndex'', ''normalizedTitle''}"
    unfolding out_def keys_literal props_def by auto
  have nt: "map_of out ''normalizedTitle''
      = Some (normalizeReleaseTitle ps (field result ''title''))"
    unfolding look props_def by simp
  have si: "map_of out ''sortIndex'' = Some (if sortIndex = Undefined then Num (Fin 0) else sortIndex)"
    unfolding look props_def idx_def by simp
  have md: "map_of out k = map_of (rev (metadataOf ps result)) k"
    if "k \<noteq> ''sortIndex'' \<and> k \<noteq> ''normalizedTitle'' \<and> k \<in> fst ` set (metadataOf ps result)" for k
  proof -
    from that have "map_of (rev (metadataOf ps result)) k \<noteq> None"
      by (simp add: map_of_eq_None_iff)
    with that show ?thesis
      unfolding look props_def by (auto simp: map_add_def split: option.splits)
  qed
  have orig: "map_of out k = map_of (spreadObject result) k"
    if "k \<noteq> ''sortIndex'' \<and> k \<noteq> ''normalizedTitle'' \<and> k \<notin> fst ` set (metadataOf ps result)" for k
  proof -
    from that have "map_of (rev (metadataOf ps result)) k = None"
      by (simp add: map_of_eq_None_iff)
    with that h show ?thesis
      unfolding look props_def by (simp add: map_add_def map_of_rev_distinct)
  qed
  show "\<exists>out. annotateNzbResult ps result sortIndex = Obj out
         \<and> distinct (map fst out)
         \<and> fst ` set out = fst ` set (spreadObject result) \<union> fst ` set (metadataOf ps result)
                             \<union> {''sortIndex'', ''normalizedTitle''}
         \<and> map_of out ''normalizedTitle''
             = Some (normalizeReleaseTitle ps (field result ''title''))
         \<and> map_of out ''sortIndex''
             = Some (if sortIndex = Undefined then Num (Fin 0) else sortIndex)
         \<and> (\<forall>k. k \<noteq> ''sortIndex'' \<and> k \<noteq> ''normalizedTitle''
                \<and> k \<in> fst ` set (metadataOf ps result) \<longrightarrow>
                map_of out k = map_of (rev (metadataOf ps result)) k)
         \<and> (\<forall>k. k \<noteq> ''sortIndex'' \<and> k \<noteq> ''normalizedTitle''
                \<and> k \<notin> fst ` set (metadataOf ps result) \<longrightarrow>
                map_of out k = map_of (spreadObject result) k)"
    using out d keys nt si md orig by blast
next
  assume "\<not> truthy other \<or> \<not> typeofObject other"
  then show "annotateNzbResult ps other sortIndex = other"
    by (auto simp: annotateNzbResult_def)
qed

text \<open>
  The claim as stated fails where a name is used twice: a \<open>resolution\<close> of the input
  yields to the one the parser reports, and a \<open>sortIndex\<close> of the input to the argument.
\<close>

theorem annotateNzbResult_overwrites_counterexample:
  "field (Obj [(''title'', Str ''A''), (''resolution'', Str ''720p''), (''sortIndex'', Num (Fin 7))])
      ''resolution'' = Str ''720p''
   \<and> field (annotateNzbResult exampleParsers
        (Obj [(''title'', Str ''A''), (''resolution'', Str ''720p''), (''sortIndex'', Num (Fin 7))])
        (Num (Fin 0))) ''resolution'' = Str ''1080p''
   \<and> field (Obj [(''title'', Str ''A''), (''resolution'', Str ''720p''), (''sortIndex'', Num (Fin 7))])
      ''sortIndex'' = Num (Fin 7)
   \<and> field (annotateNzbResult exampleParsers
        (Obj [(''title'', Str ''A''), (''resolution'', Str ''720p''), (''sortIndex'', Num (Fin 7))])
        (Num (Fin 0))) ''sortIndex'' = Num (Fin 0)"
  by (simp add: annotateNzbResult_def objectLiteral_def spreadObject_def exampleParsers_def
      js_or_def)

theorem annotateNzbResult_fields_witness:
  "truthy (Obj [(''title'', Str ''Foo''), (''size'', Num (Fin 5))])
   \<and> typeofObject (Obj [(''title'', Str ''Foo''), (''size'', Num (Fin 5))])
   \<and> distinct (map fst (spreadObject (Obj [(''title'', Str ''Foo''), (''size'', Num (Fin 5))])))
   \<and> annotateNzbResult exampleParsers (Obj [(''title'', Str ''Foo''), (''size'', Num (Fin 5))]) Undefined
      = Obj [(''title'', Str ''Foo''), (''size'', Num (Fin 5)), (''resolution'', Str ''1080p''),
             (''sortIndex'', Num (Fin 0)), (''normalizedTitle'', Str ''foo'')]
   \<and> \<not> typeofObject (Str ''Foo'')
   \<and> annotateNzbResult exampleParsers (Str ''Foo'') Undefined = Str ''Foo''"
  using annotateNzbResult_fields
    [where ps = exampleParsers and sortIndex = Undefined
       and result = "Obj [(''title'', Str ''Foo''), (''size'', Num (Fin 5))]"
       and other = "Str ''Foo''"]
  by (simp add: annotateNzbResult_def objectLiteral_def spreadObject_def exampleParsers_def
      js_or_def asciiLower_def)

subsection \<open>Scores of localized candidates\<close>

lemma dvd_words:
  "variantType rt (c\<lparr>candMeta := (candMeta c)\<lparr>metaType := Str ''dvd''\<rparr>\<rparr>)"
  "\<not> officialType rt (c\<lparr>candMeta := (candMeta c)\<lparr>metaType := Str ''dvd''\<rparr>\<rparr>)"
  by (simp_all add: variantType_def officialType_def testAnyWord_def js_String_def asciiLower_def)

text \<open>The two examples of the specification for the locale tokens.\<close>

lemma tokens_example:
  "deriveLocaleTokens asciiRuntime (Str ''fr'') (Str ''ca'') Undefined = [''fr-ca'', ''fr'', ''ca'']"
  "deriveLocaleTokens asciiRuntime Undefined (Str ''de'') (Str ''en'') = [''en-de'', ''de'']"
  by (simp_all add: deriveLocaleTokens_def trimmedLower_def fallbackPrefix_def asciiRuntime_def
      asciiTrim_def asciiLower_def Let_def)

lemma nonAscii_example: "containsNonAscii (Str [CHR ''c'', CHR ''a'', CHR ''f'', CHR 0xC3, CHR 0xA9])"
  "\<not> containsNonAscii (Str ''cafe'')"
  by (simp_all add: containsNonAscii_def nonAsciiChar_def)

text \<open>
  C7. A translation candidate whose metadata language is the original language of the
  work and whose title has a character outside ASCII scores 40 + 6 + 3 = 49; an
  alternative-title candidate of type \<open>dvd\<close> scores 15 - 3 = 12; each with no other signal
  of the score active. So the translation candidate scores strictly higher.
\<close>

theorem scoreLocalizedCandidate_translation_beats_dvd:
  assumes "candSource t = ''translation''"
    and "metaIso639 (candMeta t) = Some l" and "optOriginalLanguage options = Some l" and "l \<noteq> []"
    and "containsNonAscii (candTitle t)" and "candContainsNonAscii t = containsNonAscii (candTitle t)"
    and "\<not> officialType rt t" and "\<not> variantType rt t"
    and "\<not> originCountryMatch rt t options"
    and "\<not> defaultTitleMatch t options" and "\<not> originalTitleMatch t options"
    and "candSource a = ''alternative''"
    and "metaType (candMeta a) = Str ''dvd''"
    and "\<not> originalLanguageMatch a options"
    and "\<not> originCountryMatch rt a options"
    and "\<not> candContainsNonAscii a"
    and "\<not> defaultTitleMatch a options" and "\<not> originalTitleMatch a options"
  shows "scoreLocalizedCandidate rt t options = 49
     \<and> scoreLocalizedCandidate rt a options = 12
     \<and> scoreLocalizedCandidate rt a options < scoreLocalizedCandidate rt t options"
proof -
  have lang: "originalLanguageMatch t options"
    using assms(2-4) by (simp add: originalLanguageMatch_def)
  have t: "scoreLocalizedCandidate rt t options = 49"
    using assms(1,5-11) lang by (simp add: scoreLocalizedCandidate_def)
  have dvd: "variantType rt a" "\<not> officialType rt a"
    using assms(13)
    by (simp_all add: variantType_def officialType_def testAnyWord_def js_String_def
        asciiLower_def)
  have a: "scoreLocalizedCandidate rt a options = 12"
    using assms(12,14-18) dvd by (simp add: scoreLocalizedCandidate_def)
  show ?thesis using t a by simp
qed

theorem scoreLocalizedCandidate_translation_beats_dvd_witness:
  "scoreLocalizedCandidate asciiRuntime
     \<lparr> candTitle = Str [CHR ''A'', CHR ''m'', CHR 0xC3, CHR 0xA9, CHR ''l'', CHR ''i'', CHR ''e''],
       candOverview = Null, candTagline = Null, candSource = ''translation'',
       candNormalizedTitle = ''amlie'', candContainsNonAscii = True,
       candMeta = \<lparr> metaType = Undefined, metaIso639 = Some ''fr'', metaIso3166 = Some ''ca'',
                    metaName = Null, metaEnglishName = Null \<rparr> \<rparr>
     \<lparr> optDefaultNormalized = ''amelie'', optOriginalNormalized = ''lefabuleuxdestin'',
       optOriginalLanguage = Some ''fr'', optOriginCountries = [''FR''] \<rparr> = 49
   \<and> scoreLocalizedCandidate asciiRuntime
     \<lparr> candTitle = Str ''Amelie (DVD title)'',
       candOverview = Null, candTagline = Null, candSource = ''alternative'',
       candNormalizedTitle = ''ameliedvdtitle'', candContainsNonAscii = False,
       candMeta = \<lparr> metaType = Str ''dvd'', metaIso639 = None, metaIso3166 = Some ''us'',
                    metaName = Undefined, metaEnglishName = Undefined \<rparr> \<rparr>
     \<lparr> optDefaultNormalized = ''amelie'', optOriginalNormalized = ''lefabuleuxdestin'',
       optOriginalLanguage = Some ''fr'', optOriginCountries = [''FR''] \<rparr> = 12"
proof -
  let ?t = "\<lparr> candTitle = Str [CHR ''A'', CHR ''m'', CHR 0xC3, CHR 0xA9, CHR ''l'', CHR ''i'', CHR ''e''],
       candOverview = Null, candTagline = Null, candSource = ''translation'',
       candNormalizedTitle = ''amlie'', candContainsNonAscii = True,
       candMeta = \<lparr> metaType = Undefined, metaIso639 = Some ''fr'', metaIso3166 = Some ''ca'',
                    metaName = Null, metaEnglishName = Null \<rparr> \<rparr>"
  let ?a = "\<lparr> candTitle = Str ''Amelie (DVD title)'',
       candOverview = Null, candTagline = Null, candSource = ''alternative'',
       candNormalizedTitle = ''ameliedvdtitle'', candContainsNonAscii = False,
       candMeta = \<lparr> metaType = Str ''dvd'', metaIso639 = None, metaIso3166 = Some ''us'',
                    metaName = Undefined, metaEnglishName = Undefined \<rparr> \<rparr>"
  let ?o = "\<lparr> optDefaultNormalized = ''amelie'', optOriginalNormalized = ''lefabuleuxdestin'',
       optOriginalLanguage = Some ''fr'', optOriginCountries = [''FR''] \<rparr>"
  have "scoreLocalizedCandidate asciiRuntime ?t ?o = 49
     \<and> scoreLocalizedCandidate asciiRuntime ?a ?o = 12
     \<and> scoreLocalizedCandidate asciiRuntime ?a ?o < scoreLocalizedCandidate asciiRuntime ?t ?o"
  proof (rule scoreLocalizedCandidate_translation_beats_dvd[where l = "''fr''"])
    show "containsNonAscii (candTitle ?t)"
      by (simp add: containsNonAscii_def nonAsciiChar_def)
    then show "candContainsNonAscii ?t = containsNonAscii (candTitle ?t)" by simp
    show "\<not> originCountryMatch asciiRuntime ?t ?o" "\<not> originCountryMatch asciiRuntime ?a ?o"
      by (simp_all add: originCountryMatch_def asciiRuntime_def asciiUpper_def)
  qed (simp_all add: officialType_def variantType_def defaultTitleMatch_def
        originalTitleMatch_def originalLanguageMatch_def)
  then show ?thesis by simp
qed

subsection \<open>The best candidate of a locale token\<close>

lemma firstBest_index:
  assumes "firstBest f xs = Some b"
  shows "\<exists>i < length xs. xs ! i = b \<and> (\<forall>j < length xs. f (xs ! j) \<le> f b)
           \<and> (\<forall>j < i. f (xs ! j) < f b)"
  using assms
proof (induction xs arbitrary: b)
  case Nil
  then show ?case by simp
next
  case (Cons x xs)
  show ?case
  proof (cases "firstBest f xs")
    case None
    then have "xs = []" by (cases xs) (auto split: option.splits if_splits)
    with Cons.prems show ?thesis by simp
  next
    case (Some c)
    from Cons.IH[OF Some] obtain i where i: "i < length xs" "xs ! i = c"
      "\<forall>j < length xs. f (xs ! j) \<le> f c" "\<forall>j < i. f (xs ! j) < f c"
      by blast
    show ?thesis
    proof (cases "f x < f c")
      case True
      with Cons.prems Some have b: "b = c" by simp
      have "Suc i < length (x # xs)" "(x # xs) ! Suc i = b"
        using i b by simp_all
      moreover have "\<forall>j < length (x # xs). f ((x # xs) ! j) \<le> f b"
      proof (intro allI impI)
        fix j assume "j < length (x # xs)"
        then show "f ((x # xs) ! j) \<le> f b"
          using i(3) True b by (cases j) auto
      qed
      moreover have "\<forall>j < Suc i. f ((x # xs) ! j) < f b"
      proof (intro allI impI)
        fix j assume "j < Suc i"
        then show "f ((x # xs) ! j) < f b"
          using i(4) True b by (cases j) auto
      qed
      ultimately show ?thesis by blast
    next
      case False
      with Cons.prems Some have b: "b = x" by simp
      have "\<forall>j < length (x # xs). f ((x # xs) ! j) \<le> f b"
      proof (intro allI impI)
        fix j assume "j < length (x # xs)"
        then show "f ((x # xs) ! j) \<le> f b"
          using i(3) False b by (cases j) (auto intro: order_trans)
      qed
      then show ?thesis using b by (intro exI[of _ 0]) simp
    qed
  qed
qed

lemma firstBest_None: "firstBest f xs = None \<longleftrightarrow> xs = []"
  by (cases xs) (auto split: option.splits)

lemma insertSorted_score_total: "\<exists>zs. insertSorted compareScore x ys = Inr zs"
  by (induction ys) (auto simp: compareScore_def)

lemma insertSorted_score_head:
  "\<exists>zs. insertSorted compareScore x ys = Inr zs \<and> zs \<noteq> []
     \<and> hd zs = (case ys of [] \<Rightarrow> x | h # t \<Rightarrow> if snd x < snd h then h else x)"
proof (cases ys)
  case Nil
  then show ?thesis by simp
next
  case (Cons h t)
  obtain r where "insertSorted compareScore x t = Inr r"
    using insertSorted_score_total by blast
  with Cons show ?thesis by (simp add: compareScore_def)
qed

lemma sortBy_score_head:
  "\<exists>zs. sortBy compareScore (map (\<lambda>c. (c, f c)) cs) = Inr zs
     \<and> (case firstBest f cs of None \<Rightarrow> zs = [] | Some b \<Rightarrow> zs \<noteq> [] \<and> hd zs = (b, f b))"
proof (induction cs)
  case Nil
  then show ?case by simp
next
  case (Cons c cs)
  then obtain zs where zs: "sortBy compareScore (map (\<lambda>c. (c, f c)) cs) = Inr zs"
    "case firstBest f cs of None \<Rightarrow> zs = [] | Some b \<Rightarrow> zs \<noteq> [] \<and> hd zs = (b, f b)"
    by blast
  obtain ws where ws: "insertSorted compareScore (c, f c) zs = Inr ws" "ws \<noteq> []"
    "hd ws = (case zs of [] \<Rightarrow> (c, f c) | h # t \<Rightarrow> if snd (c, f c) < snd h then h else (c, f c))"
    using insertSorted_score_head by blast
  show ?case
  proof (cases "firstBest f cs")
    case None
    with zs ws show ?thesis by simp
  next
    case (Some b)
    with zs(2) obtain t where "zs = (b, f b) # t" by (cases zs) auto
    with zs ws Some show ?thesis by simp
  qed
qed

lemma bestCandidate_firstBest:
  "bestCandidate rt options cs = firstBest (\<lambda>c. scoreLocalizedCandidate rt c options) cs"
proof -
  obtain zs where zs:
    "sortBy compareScore (map (\<lambda>c. (c, scoreLocalizedCandidate rt c options)) cs) = Inr zs"
    "case firstBest (\<lambda>c. scoreLocalizedCandidate rt c options) cs of
       None \<Rightarrow> zs = [] | Some b \<Rightarrow> zs \<noteq> [] \<and> hd zs = (b, scoreLocalizedCandidate rt b options)"
    using sortBy_score_head[of "\<lambda>c. scoreLocalizedCandidate rt c options" cs] by blast
  show ?thesis
  proof (cases "firstBest (\<lambda>c. scoreLocalizedCandidate rt c options) cs")
    case None
    with zs show ?thesis by (simp add: bestCandidate_def)
  next
    case (Some b)
    with zs(2) obtain t where "zs = (b, scoreLocalizedCandidate rt b options) # t"
      by (cases zs) auto
    with zs(1) Some show ?thesis by (simp add: bestCandidate_def)
  qed
qed

lemma map_of_pushCandidate:
  "map_of (pushCandidate cm token c) token' =
     (if token' = token then Some (candidatesUnder cm token @ [c]) else map_of cm token')"
proof (cases "map_of cm token")
  case None
  then show ?thesis
    by (simp add: pushCandidate_def candidatesUnder_def map_add_def split: option.splits)
next
  case (Some cs)
  then show ?thesis
    by (simp add: pushCandidate_def candidatesUnder_def update_conv')
qed

lemma pushCandidate_lookup:
  "candidatesUnder (pushCandidate cm token c) token' =
     (if token' = token then candidatesUnder cm token @ [c] else candidatesUnder cm token')"
  by (simp add: candidatesUnder_def[of "pushCandidate cm token c"] map_of_pushCandidate)
     (simp add: candidatesUnder_def)

lemma pushCandidate_distinct:
  "distinct (map fst cm) \<Longrightarrow> distinct (map fst (pushCandidate cm token c))"
  by (auto simp: pushCandidate_def distinct_update map_of_eq_None_iff split: option.splits)

lemma pushCandidate_wellFormed:
  "wellFormedMap cm \<Longrightarrow> wellFormedMap (pushCandidate cm token c)"
  by (simp add: wellFormedMap_def pushCandidate_distinct map_of_pushCandidate)

lemma registerCandidate_wellFormed:
  "wellFormedMap cm \<Longrightarrow> wellFormedMap (registerCandidate rt cm tokens p)"
proof -
  have "wellFormedMap cm \<Longrightarrow>
      wellFormedMap (foldl (\<lambda>cm token. if token = [] then cm else pushCandidate cm token c) cm tokens)"
    for c
    by (induction tokens arbitrary: cm) (simp_all add: pushCandidate_wellFormed)
  then show "wellFormedMap cm \<Longrightarrow> wellFormedMap (registerCandidate rt cm tokens p)"
    by (simp add: registerCandidate_def)
qed

lemma translationStep_wellFormed:
  "wellFormedMap cm \<Longrightarrow> translationStep rt cm entry = Inr cm' \<Longrightarrow> wellFormedMap cm'"
  by (auto simp: translationStep_def Let_def bindE_eq_Inr registerCandidate_wellFormed
      split: if_splits)

lemma alternativeStep_wellFormed:
  "wellFormedMap cm \<Longrightarrow> alternativeStep rt fallback cm entry = Inr cm' \<Longrightarrow> wellFormedMap cm'"
  by (auto simp: alternativeStep_def Let_def bindE_eq_Inr registerCandidate_wellFormed
      split: if_splits)

lemma forEachE_invariant:
  assumes "\<And>s x s'. P s \<Longrightarrow> f s x = Inr s' \<Longrightarrow> P s'"
  shows "P s \<Longrightarrow> forEachE f s xs = Inr s' \<Longrightarrow> P s'"
proof (induction xs arbitrary: s)
  case Nil
  then show ?case by simp
next
  case (Cons x xs)
  from Cons.prems(2) obtain s1 where s1: "f s x = Inr s1" "forEachE f s1 xs = Inr s'"
    by (auto simp: bindE_eq_Inr)
  from assms[OF Cons.prems(1) s1(1)] have "P s1" .
  from Cons.IH[OF this s1(2)] show ?case .
qed

lemma collectCandidates_wellFormed:
  assumes "collectCandidates rt translations alternativeTitles options = Inr cm"
  shows "wellFormedMap cm"
proof -
  from assms obtain ts cm1 as fallback where
    t: "forEachE (translationStep rt) [] ts = Inr cm1"
    and a: "forEachE (alternativeStep rt fallback) cm1 as = Inr cm"
    by (auto simp: collectCandidates_def bindE_eq_Inr)
  have "wellFormedMap []" by (simp add: wellFormedMap_def)
  then have "wellFormedMap cm1"
    using t by (rule forEachE_invariant[rotated 1]) (rule translationStep_wellFormed)
  then show ?thesis
    using a by (rule forEachE_invariant[rotated 1]) (rule alternativeStep_wellFormed)
qed

lemma chooseStep_lookup:
  "map_of (chooseStep rt options localized entry) token =
     (if token = fst entry \<and> token \<noteq> ''__proto__'' \<and> snd entry \<noteq> []
      then map_option localizedEntry (bestCandidate rt options (snd entry))
      else map_of localized token)"
  by (auto simp: chooseStep_def assignLocalized_def update_conv' bestCandidate_firstBest
      firstBest_None split: option.splits)

lemma chooseStep_distinct:
  "distinct (map fst localized) \<Longrightarrow> distinct (map fst (chooseStep rt options localized entry))"
  by (simp add: chooseStep_def assignLocalized_def distinct_update split: option.splits)

lemma chooseLocalized_distinct: "distinct (map fst (chooseLocalized rt options cm))"
proof -
  have "distinct (map fst acc) \<Longrightarrow> distinct (map fst (foldl (chooseStep rt options) acc cm))" for acc
    by (induction cm arbitrary: acc) (simp_all add: chooseStep_distinct)
  then show ?thesis by (simp add: chooseLocalized_def)
qed

lemma chooseLocalized_lookup:
  assumes "wellFormedMap cm"
  shows "map_of (chooseLocalized rt options cm) token =
     (if token = ''__proto__'' then None
      else (case map_of cm token of
              None \<Rightarrow> None
            | Some cs \<Rightarrow> map_option localizedEntry (bestCandidate rt options cs)))"
  using assms unfolding chooseLocalized_def
proof (induction cm rule: rev_induct)
  case Nil
  then show ?case by simp
next
  case (snoc e cm)
  obtain t cs where e: "e = (t, cs)" by (cases e)
  from snoc.prems have d: "distinct (map fst cm)" and new: "t \<notin> fst ` set cm"
    by (auto simp: wellFormedMap_def e)
  have none: "map_of cm t = None" using new by (simp add: map_of_eq_None_iff)
  have ne: "cs \<noteq> []"
  proof
    assume "cs = []"
    with none have "map_of (cm @ [e]) t = Some []" by (simp add: e map_add_def)
    with snoc.prems show False by (simp add: wellFormedMap_def)
  qed
  have wf: "wellFormedMap cm"
    unfolding wellFormedMap_def
  proof (intro conjI allI)
    show "distinct (map fst cm)" by (rule d)
    fix token
    show "map_of cm token \<noteq> Some []"
    proof
      assume "map_of cm token = Some []"
      then have "map_of (cm @ [e]) token = Some []" by (simp add: e map_add_def)
      with snoc.prems show False by (simp add: wellFormedMap_def)
    qed
  qed
  show ?case
    using snoc.IH[OF wf] none ne
    by (auto simp: chooseStep_lookup e map_add_def split: option.splits)
qed

text \<open>
  C1. When \<open>buildLocalizedTitles\<close> returns, it returns an object with at most one entry
  for a name. Unless both lists are empty (the object is then empty), the entry of a
  locale token is there exactly when candidates were registered under the token, and it
  is made from one of them: a candidate whose score no candidate of the token exceeds and
  which stands, in the array of the token, before every other candidate of that score.
  \<open>registerCandidate\<close> pushes to the end of that array, so the order of the array is the
  order in which the candidates were met. (The name \<open>__proto__\<close> never gets an entry.)
\<close>

theorem buildLocalizedTitles_best:
  assumes "buildLocalizedTitles rt translations alternativeTitles options = Inr out"
  shows "(emptyOrNoArray (orDefault translations (Arr []))
          \<and> emptyOrNoArray (orDefault alternativeTitles (Arr [])) \<longrightarrow> out = Obj [])
     \<and> (\<not> (emptyOrNoArray (orDefault translations (Arr []))
             \<and> emptyOrNoArray (orDefault alternativeTitles (Arr []))) \<longrightarrow>
         (\<exists>cm scoreOptions localized.
            collectCandidates rt (orDefault translations (Arr []))
              (orDefault alternativeTitles (Arr [])) (orDefault options (Obj [])) = Inr cm
            \<and> scoreOptionsOf rt (orDefault options (Obj [])) = Inr scoreOptions
            \<and> out = Obj localized
            \<and> distinct (map fst localized)
            \<and> map_of localized ''__proto__'' = None
            \<and> (\<forall>token. token \<noteq> ''__proto__'' \<longrightarrow>
                 (candidatesUnder cm token = [] \<longrightarrow> map_of localized token = None)
                 \<and> (candidatesUnder cm token \<noteq> [] \<longrightarrow>
                      (\<exists>i < length (candidatesUnder cm token).
                         map_of localized token
                           = Some (localizedEntry (candidatesUnder cm token ! i))
                         \<and> (\<forall>j < length (candidatesUnder cm token).
                               scoreLocalizedCandidate rt (candidatesUnder cm token ! j) scoreOptions
                                 \<le> scoreLocalizedCandidate rt (candidatesUnder cm token ! i) scoreOptions)
                         \<and> (\<forall>j < i.
                               scoreLocalizedCandidate rt (candidatesUnder cm token ! j) scoreOptions
                                 < scoreLocalizedCandidate rt (candidatesUnder cm token ! i) scoreOptions))))))
     \<and> (\<forall>cm token c. candidatesUnder (pushCandidate cm token c) token
                        = candidatesUnder cm token @ [c])"
proof (intro conjI impI)
  assume "emptyOrNoArray (orDefault translations (Arr []))
          \<and> emptyOrNoArray (orDefault alternativeTitles (Arr []))"
  with assms show "out = Obj []"
    by (simp add: buildLocalizedTitles_def Let_def)
next
  let ?T = "orDefault translations (Arr [])"
  let ?A = "orDefault alternativeTitles (Arr [])"
  let ?O = "orDefault options (Obj [])"
  assume "\<not> (emptyOrNoArray ?T \<and> emptyOrNoArray ?A)"
  with assms obtain so cm where so: "scoreOptionsOf rt ?O = Inr so"
    and cm: "collectCandidates rt ?T ?A ?O = Inr cm"
    and out: "out = Obj (chooseLocalized rt so cm)"
    by (auto simp: buildLocalizedTitles_def Let_def bindE_eq_Inr)
  have wf: "wellFormedMap cm" using cm by (rule collectCandidates_wellFormed)
  let ?L = "chooseLocalized rt so cm"
  let ?f = "\<lambda>c. scoreLocalizedCandidate rt c so"
  have look: "map_of ?L token =
     (if token = ''__proto__'' then None
      else (case map_of cm token of
              None \<Rightarrow> None
            | Some cs \<Rightarrow> map_option localizedEntry (firstBest ?f cs)))" for token
    unfolding chooseLocalized_lookup[OF wf] bestCandidate_firstBest by (rule refl)
  have per_token: "(candidatesUnder cm token = [] \<longrightarrow> map_of ?L token = None)
       \<and> (candidatesUnder cm token \<noteq> [] \<longrightarrow>
            (\<exists>i < length (candidatesUnder cm token).
               map_of ?L token = Some (localizedEntry (candidatesUnder cm token ! i))
               \<and> (\<forall>j < length (candidatesUnder cm token).
                     ?f (candidatesUnder cm token ! j) \<le> ?f (candidatesUnder cm token ! i))
               \<and> (\<forall>j < i. ?f (candidatesUnder cm token ! j) < ?f (candidatesUnder cm token ! i))))"
    if proto: "token \<noteq> ''__proto__''" for token
  proof (cases "map_of cm token")
    case None
    then show ?thesis using proto by (simp add: look candidatesUnder_def)
  next
    case (Some cs)
    then have under: "candidatesUnder cm token = cs" by (simp add: candidatesUnder_def)
    have "cs \<noteq> []" using wf Some by (auto simp: wellFormedMap_def)
    then obtain b where b: "firstBest ?f cs = Some b"
      using firstBest_None[of ?f cs] by (cases "firstBest ?f cs") auto
    from firstBest_index[OF b] obtain i where i: "i < length cs" "cs ! i = b"
      "\<forall>j < length cs. ?f (cs ! j) \<le> ?f b" "\<forall>j < i. ?f (cs ! j) < ?f b"
      by blast
    have "map_of ?L token = Some (localizedEntry (cs ! i))"
      using proto Some b i(2) by (simp add: look)
    with i \<open>cs \<noteq> []\<close> show ?thesis unfolding under by blast
  qed
  have proto: "map_of ?L ''__proto__'' = None" by (simp add: look)
  show "\<exists>cm scoreOptions localized.
            collectCandidates rt ?T ?A ?O = Inr cm
            \<and> scoreOptionsOf rt ?O = Inr scoreOptions
            \<and> out = Obj localized
            \<and> distinct (map fst localized)
            \<and> map_of localized ''__proto__'' = None
            \<and> (\<forall>token. token \<noteq> ''__proto__'' \<longrightarrow>
                 (candidatesUnder cm token = [] \<longrightarrow> map_of localized token = None)
                 \<and> (candidatesUnder cm token \<noteq> [] \<longrightarrow>
                      (\<exists>i < length (candidatesUnder cm token).
                         map_of localized token
                           = Some (localizedEntry (candidatesUnder cm token ! i))
                         \<and> (\<forall>j < length (candidatesUnder cm token).
                               scoreLocalizedCandidate rt (candidatesUnder cm token ! j) scoreOptions
                                 \<le> scoreLocalizedCandidate rt (candidatesUnder cm token ! i) scoreOptions)
                         \<and> (\<forall>j < i.
                               scoreLocalizedCandidate rt (candidatesUnder cm token ! j) scoreOptions
                                 < scoreLocalizedCandidate rt (candidatesUnder cm token ! i) scoreOptions))))"
    using cm so out chooseLocalized_distinct[of rt so cm] proto per_token by blast
next
  show "\<forall>cm token c. candidatesUnder (pushCandidate cm token c) token
                        = candidatesUnder cm token @ [c]"
    by (simp add: pushCandidate_lookup)
qed


text \<open>
  Two translations and an alternative title: under \<open>fr\<close> the two translations score the
  same and the first one met is chosen; under \<open>fr-fr\<close> the translation beats the \<open>dvd\<close>
  title.
\<close>

theorem buildLocalizedTitles_best_witness:
  "buildLocalizedTitles asciiRuntime
     (Arr [Obj [(''iso_639_1'', Str ''fr''), (''iso_3166_1'', Str ''FR''),
                (''data'', Obj [(''title'', Str ''Le Film'')])],
           Obj [(''iso_639_1'', Str ''fr''), (''iso_3166_1'', Str ''CA''),
                (''data'', Obj [(''title'', Str ''Le Film Quebec'')])]])
     (Arr [Obj [(''iso_3166_1'', Str ''FR''), (''title'', Str ''Film DVD''), (''type'', Str ''dvd'')]])
     (Obj [(''originalLanguage'', Str ''fr''), (''defaultTitle'', Str ''The Film'')])
   = Inr (Obj [(''fr-fr'',
                Obj [(''title'', Str ''Le Film''), (''overview'', Null), (''tagline'', Null),
                     (''source'', Str ''translation''), (''type'', Null)]),
               (''fr'',
                Obj [(''title'', Str ''Le Film''), (''overview'', Null), (''tagline'', Null),
                     (''source'', Str ''translation''), (''type'', Null)]),
               (''fr-ca'',
                Obj [(''title'', Str ''Le Film Quebec''), (''overview'', Null), (''tagline'', Null),
                     (''source'', Str ''translation''), (''type'', Null)]),
               (''ca'',
                Obj [(''title'', Str ''Le Film Quebec''), (''overview'', Null), (''tagline'', Null),
                     (''source'', Str ''translation''), (''type'', Null)])])
   \<and> (\<exists>cm. collectCandidates asciiRuntime
          (orDefault (Arr [Obj [(''iso_639_1'', Str ''fr''), (''iso_3166_1'', Str ''FR''),
                     (''data'', Obj [(''title'', Str ''Le Film'')])],
                Obj [(''iso_639_1'', Str ''fr''), (''iso_3166_1'', Str ''CA''),
                     (''data'', Obj [(''title'', Str ''Le Film Quebec'')])]]) (Arr []))
          (orDefault (Arr [Obj [(''iso_3166_1'', Str ''FR''), (''title'', Str ''Film DVD''),
                     (''type'', Str ''dvd'')]]) (Arr []))
          (orDefault (Obj [(''originalLanguage'', Str ''fr''), (''defaultTitle'', Str ''The Film'')])
             (Obj []))
        = Inr cm)"
proof -
  let ?T = "Arr [Obj [(''iso_639_1'', Str ''fr''), (''iso_3166_1'', Str ''FR''),
                (''data'', Obj [(''title'', Str ''Le Film'')])],
           Obj [(''iso_639_1'', Str ''fr''), (''iso_3166_1'', Str ''CA''),
                (''data'', Obj [(''title'', Str ''Le Film Quebec'')])]]"
  let ?A = "Arr [Obj [(''iso_3166_1'', Str ''FR''), (''title'', Str ''Film DVD''), (''type'', Str ''dvd'')]]"
  let ?O = "Obj [(''originalLanguage'', Str ''fr''), (''defaultTitle'', Str ''The Film'')]"
  let ?L = "[(''fr-fr'',
                Obj [(''title'', Str ''Le Film''), (''overview'', Null), (''tagline'', Null),
                     (''source'', Str ''translation''), (''type'', Null)]),
               (''fr'',
                Obj [(''title'', Str ''Le Film''), (''overview'', Null), (''tagline'', Null),
                     (''source'', Str ''translation''), (''type'', Null)]),
               (''fr-ca'',
                Obj [(''title'', Str ''Le Film Quebec''), (''overview'', Null), (''tagline'', Null),
                     (''source'', Str ''translation''), (''type'', Null)]),
               (''ca'',
                Obj [(''title'', Str ''Le Film Quebec''), (''overview'', Null), (''tagline'', Null),
                     (''source'', Str ''translation''), (''type'', Null)])]"
  have run: "buildLocalizedTitles asciiRuntime ?T ?A ?O = Inr (Obj ?L)"
    by (simp add: buildLocalizedTitles_def orDefault_def emptyOrNoArray_def scoreOptionsOf_def
      get_def nullish_def collectCandidates_def forEachItems_def translationStep_def
      alternativeStep_def js_or_def Let_def deriveLocaleTokens_def trimmedLower_def
      fallbackPrefix_def asciiRuntime_def asciiTrim_def asciiLower_def asciiUpper_def newSet_def
      lowerOrNull_def registerCandidate_def pushCandidate_def newCandidate_def
      chooseLocalized_def chooseStep_def bestCandidate_def compareScore_def
      scoreLocalizedCandidate_def normalizeTitleValue_def lowerAlphanumeric_def
      containsNonAscii_def nonAsciiChar_def officialType_def variantType_def testAnyWord_def
      js_String_def originalLanguageMatch_def originCountryMatch_def defaultTitleMatch_def
      originalTitleMatch_def assignLocalized_def localizedEntry_def)
  have full: "\<not> (emptyOrNoArray (orDefault ?T (Arr [])) \<and> emptyOrNoArray (orDefault ?A (Arr [])))"
    by (simp add: emptyOrNoArray_def orDefault_def)
  note best = buildLocalizedTitles_best[OF run, THEN conjunct2, THEN conjunct1, THEN mp, OF full]
  then obtain cm where
    "collectCandidates asciiRuntime (orDefault ?T (Arr [])) (orDefault ?A (Arr []))
       (orDefault ?O (Obj [])) = Inr cm"
    by (elim exE conjE)
  then have "\<exists>cm. collectCandidates asciiRuntime (orDefault ?T (Arr [])) (orDefault ?A (Arr []))
       (orDefault ?O (Obj [])) = Inr cm"
    by (rule exI)
  with run show ?thesis by (rule conjI)
qed

subsection \<open>The order of the lookups\<close>

lemma searchedLanguages_append:
  "searchedLanguages (xs @ ys) = searchedLanguages xs @ searchedLanguages ys"
  by (induction xs rule: searchedLanguages.induct) simp_all

lemma afterRejection_quiet: "searchedLanguages (afterRejection rt status) = []"
  by (simp add: afterRejection_def)

lemma firstListed_cases:
  "firstListed rt ls = Null \<or> (\<exists>first. firstListed rt ls = imdbMatchOf rt first)"
  by (induction rt ls rule: firstListed.induct) auto

lemma find_result:
  "fst (findTmdbIdByImdb net rt trace apiKey imdbId) = Null
   \<or> (truthy apiKey \<and> truthy imdbId
       \<and> (\<exists>first. fst (findTmdbIdByImdb net rt trace apiKey imdbId) = imdbMatchOf rt first))"
  using firstListed_cases
  by (auto simp: findTmdbIdByImdb_def Let_def split: reply.splits)

lemma find_trace:
  "\<exists>events. snd (findTmdbIdByImdb net rt trace apiKey imdbId) = trace @ events
     \<and> searchedLanguages events = []"
  by (auto simp: findTmdbIdByImdb_def Let_def searchedLanguages_append afterRejection_quiet
      split: reply.splits)

lemma search_trace:
  "\<exists>events. snd (searchTmdbByTitle net rt trace apiKey type title year language)
       = trace @ SearchCalled language # events
     \<and> searchedLanguages events = []"
  by (auto simp: searchTmdbByTitle_def Let_def searchedLanguages_append afterRejection_quiet
      split: reply.splits)

lemma searchEach_trace:
  "\<exists>k \<le> length candidates.
     searchedLanguages (snd (searchEach net rt apiKey type title year trace candidates))
       = searchedLanguages trace @ take k candidates
     \<and> (candidates \<noteq> [] \<longrightarrow> 0 < k)"
proof (induction candidates arbitrary: trace)
  case Nil
  then show ?case by simp
next
  case (Cons c cs)
  obtain m tr where s: "searchTmdbByTitle net rt trace apiKey type title year c = (m, tr)"
    by (cases "searchTmdbByTitle net rt trace apiKey type title year c")
  obtain events where tr: "tr = trace @ SearchCalled c # events" "searchedLanguages events = []"
    using search_trace[of net rt trace apiKey type title year c] s by auto
  have called: "searchedLanguages tr = searchedLanguages trace @ [c]"
    using tr by (simp add: searchedLanguages_append)
  show ?case
  proof (cases "truthy (opt_get m ''tmdbId'')")
    case True
    then have "searchedLanguages (snd (searchEach net rt apiKey type title year trace (c # cs)))
        = searchedLanguages trace @ take 1 (c # cs)"
      using s called by simp
    then show ?thesis by (intro exI[of _ 1]) simp
  next
    case False
    from Cons.IH[of tr] obtain k where k: "k \<le> length cs"
      "searchedLanguages (snd (searchEach net rt apiKey type title year tr cs))
         = searchedLanguages tr @ take k cs"
      by blast
    have "searchedLanguages (snd (searchEach net rt apiKey type title year trace (c # cs)))
        = searchedLanguages trace @ take (Suc k) (c # cs)"
      using s False k(2) called by simp
    with k(1) show ?thesis by (intro exI[of _ "Suc k"]) simp
  qed
qed

lemma tagged_imdb:
  "objectLiteral (spreadObject (imdbMatchOf rt first) @ [(''via'', v)])
     = Obj [(''tmdbId'', Str (js_String rt (field first ''id''))),
            (''title'', titleOf first),
            (''releaseDate'', releaseDateOf first),
            (''mediaType'', js_or (field first ''media_type'') Null),
            (''via'', v)]"
  by (simp add: objectLiteral_def spreadObject_def imdbMatchOf_def)

lemma get_field: "\<not> nullish args \<Longrightarrow> get args k = Inr (field args k)"
  by (simp add: get_def)

lemma resolve_unfold:
  assumes "\<not> nullish args"
  shows "resolveTmdbId net rt trace args =
     (if \<not> truthy (field args ''apiKey'') then Inr (Null, trace)
      else
        (let normalizedType = (if strict_eq (field args ''type'') (Str ''series'') then Str ''series''
                               else Str ''movie'');
             (imdbMatch, trace1) =
               (if truthy (field args ''imdbId'')
                then findTmdbIdByImdb net rt trace (field args ''apiKey'') (field args ''imdbId'')
                else (Undefined, trace))
         in if truthy (field args ''imdbId'') \<and> truthy (opt_get imdbMatch ''tmdbId'') then
              Inr (objectLiteral (spreadObject imdbMatch @ [(''via'', Str ''imdb'')]), trace1)
            else if truthy (field args ''title'') then
              Inr (searchEach net rt (field args ''apiKey'') normalizedType (field args ''title'')
                     (field args ''year'') trace1 (candidatesOf (field args ''languageCandidates'')))
            else Inr (Null, trace1)))"
  by (simp add: resolveTmdbId_def get_field[OF assms])

lemma resolve_returns_args:
  "resolveTmdbId net rt trace args = Inr r \<Longrightarrow> \<not> nullish args"
  by (auto simp: resolveTmdbId_def get_def bindE_def split: if_splits)

text \<open>
  C8. When an IMDb id is supplied and \<open>findTmdbIdByImdb\<close> returns a match with a
  \<open>tmdbId\<close>, \<open>resolveTmdbId\<close> returns that match with \<open>via\<close> set to \<open>imdb\<close>, and
  \<open>searchTmdbByTitle\<close> is not called. Whenever \<open>resolveTmdbId\<close> returns, the title search
  has been called with the first language candidates, in their order (a single \<open>null\<close>
  when none is given); and it has been called at all only when a title is given and
  either no IMDb id is supplied or the direct lookup yields no match with a \<open>tmdbId\<close>.
\<close>

theorem resolveTmdbId_imdb_first:
  "(\<not> nullish args \<and> truthy (field args ''imdbId'')
      \<and> findTmdbIdByImdb net rt trace (field args ''apiKey'') (field args ''imdbId'')
          = (imdbMatch, trace')
      \<and> truthy (opt_get imdbMatch ''tmdbId'') \<longrightarrow>
      resolveTmdbId net rt trace args
        = Inr (objectLiteral (spreadObject imdbMatch @ [(''via'', Str ''imdb'')]), trace')
      \<and> (\<exists>first. imdbMatch = imdbMatchOf rt first
            \<and> objectLiteral (spreadObject imdbMatch @ [(''via'', Str ''imdb'')])
                = Obj [(''tmdbId'', Str (js_String rt (field first ''id''))),
                       (''title'', titleOf first),
                       (''releaseDate'', releaseDateOf first),
                       (''mediaType'', js_or (field first ''media_type'') Null),
                       (''via'', Str ''imdb'')])
      \<and> searchedLanguages trace' = searchedLanguages trace)
   \<and> (resolveTmdbId net rt trace0 args0 = Inr (result, trace1) \<longrightarrow>
        (\<exists>k \<le> length (candidatesOf (field args0 ''languageCandidates'')).
           searchedLanguages trace1
             = searchedLanguages trace0 @ take k (candidatesOf (field args0 ''languageCandidates''))
           \<and> (0 < k \<longrightarrow>
                truthy (field args0 ''title'')
                \<and> \<not> (truthy (field args0 ''imdbId'')
                       \<and> truthy (opt_get (fst (findTmdbIdByImdb net rt trace0
                                     (field args0 ''apiKey'') (field args0 ''imdbId''))) ''tmdbId'')))))"
proof (intro conjI impI)
  assume h: "\<not> nullish args \<and> truthy (field args ''imdbId'')
      \<and> findTmdbIdByImdb net rt trace (field args ''apiKey'') (field args ''imdbId'')
          = (imdbMatch, trace')
      \<and> truthy (opt_get imdbMatch ''tmdbId'')"
  then have args: "\<not> nullish args" and id: "truthy (field args ''imdbId'')"
    and found: "findTmdbIdByImdb net rt trace (field args ''apiKey'') (field args ''imdbId'')
          = (imdbMatch, trace')"
    and tmdb: "truthy (opt_get imdbMatch ''tmdbId'')"
    by simp_all
  from tmdb have "imdbMatch \<noteq> Null" by (auto simp: opt_get_def nullish_def)
  with find_result[of net rt trace "field args ''apiKey''" "field args ''imdbId''"] found
  obtain first where key: "truthy (field args ''apiKey'')" and m: "imdbMatch = imdbMatchOf rt first"
    by auto
  show "resolveTmdbId net rt trace args
        = Inr (objectLiteral (spreadObject imdbMatch @ [(''via'', Str ''imdb'')]), trace')"
    using key id found tmdb by (simp add: resolve_unfold[OF args])
  show "\<exists>first. imdbMatch = imdbMatchOf rt first
            \<and> objectLiteral (spreadObject imdbMatch @ [(''via'', Str ''imdb'')])
                = Obj [(''tmdbId'', Str (js_String rt (field first ''id''))),
                       (''title'', titleOf first),
                       (''releaseDate'', releaseDateOf first),
                       (''mediaType'', js_or (field first ''media_type'') Null),
                       (''via'', Str ''imdb'')]"
    using m tagged_imdb by blast
  show "searchedLanguages trace' = searchedLanguages trace"
    using find_trace[of net rt trace "field args ''apiKey''" "field args ''imdbId''"] found
    by (auto simp: searchedLanguages_append)
next
  assume run: "resolveTmdbId net rt trace0 args0 = Inr (result, trace1)"
  let ?cs = "candidatesOf (field args0 ''languageCandidates'')"
  let ?find = "findTmdbIdByImdb net rt trace0 (field args0 ''apiKey'') (field args0 ''imdbId'')"
  have args: "\<not> nullish args0" using run by (rule resolve_returns_args)
  note unfolded = run[unfolded resolve_unfold[OF args]]
  have quiet: "searchedLanguages (snd ?find) = searchedLanguages trace0"
    using find_trace[of net rt trace0 "field args0 ''apiKey''" "field args0 ''imdbId''"]
    by (auto simp: searchedLanguages_append)
  define t1 where "t1 = (if truthy (field args0 ''imdbId'') then snd ?find else trace0)"
  have t1: "searchedLanguages t1 = searchedLanguages trace0"
    using quiet by (simp add: t1_def)
  define direct where "direct \<longleftrightarrow> truthy (field args0 ''imdbId'')
      \<and> truthy (opt_get (fst ?find) ''tmdbId'')"
  show "\<exists>k \<le> length ?cs.
           searchedLanguages trace1 = searchedLanguages trace0 @ take k ?cs
           \<and> (0 < k \<longrightarrow>
                truthy (field args0 ''title'')
                \<and> \<not> (truthy (field args0 ''imdbId'')
                       \<and> truthy (opt_get (fst ?find) ''tmdbId'')))"
  proof (cases "truthy (field args0 ''apiKey'') \<and> \<not> direct \<and> truthy (field args0 ''title'')")
    case True
    define ty where "ty = (if strict_eq (field args0 ''type'') (Str ''series'') then Str ''series''
                               else Str ''movie'')"
    have "trace1 = snd (searchEach net rt (field args0 ''apiKey'') ty (field args0 ''title'')
                     (field args0 ''year'') t1 ?cs)"
      using unfolded True
      by (auto simp: direct_def t1_def ty_def Let_def split: prod.splits if_splits)
    moreover obtain k where "k \<le> length ?cs"
      "searchedLanguages (snd (searchEach net rt (field args0 ''apiKey'') ty (field args0 ''title'')
                     (field args0 ''year'') t1 ?cs)) = searchedLanguages t1 @ take k ?cs"
      using searchEach_trace[of ?cs net rt "field args0 ''apiKey''" ty "field args0 ''title''"
          "field args0 ''year''" t1] by blast
    ultimately show ?thesis
      using True t1 by (auto simp: direct_def)
  next
    case False
    have "trace1 = trace0 \<or> trace1 = t1"
      using unfolded False
      by (auto simp: direct_def t1_def Let_def split: prod.splits if_splits)
    then have "searchedLanguages trace1 = searchedLanguages trace0 @ take 0 ?cs"
      using t1 by auto
    then show ?thesis by (intro exI[of _ 0]) simp
  qed
qed

text \<open>
  A network that answers every request with one film: with an IMDb id the match comes
  from the direct lookup and no search is made; without one the search is called once,
  with the first language candidate.
\<close>

theorem resolveTmdbId_imdb_first_witness:
  "\<not> nullish (Obj [(''apiKey'', Str ''k''), (''imdbId'', Str ''tt0133093''),
                  (''title'', Str ''The Matrix''),
                  (''languageCandidates'', Arr [Str ''en-US'', Str ''fr-FR''])])
   \<and> truthy (field (Obj [(''apiKey'', Str ''k''), (''imdbId'', Str ''tt0133093''),
                  (''title'', Str ''The Matrix''),
                  (''languageCandidates'', Arr [Str ''en-US'', Str ''fr-FR''])]) ''imdbId'')
   \<and> resolveTmdbId
        (\<lambda>trace req. Resolved (Obj [(''movie_results'', Arr [Obj [(''id'', Str ''603''), (''title'', Str ''The Matrix'')]]),
                                    (''results'', Arr [Obj [(''id'', Str ''603''), (''title'', Str ''The Matrix'')]])]))
        asciiRuntime []
        (Obj [(''apiKey'', Str ''k''), (''imdbId'', Str ''tt0133093''),
              (''title'', Str ''The Matrix''),
              (''languageCandidates'', Arr [Str ''en-US'', Str ''fr-FR''])])
      = Inr (Obj [(''tmdbId'', Str ''603''), (''title'', Str ''The Matrix''),
                  (''releaseDate'', Null), (''mediaType'', Null), (''via'', Str ''imdb'')],
             [FindCalled (Str ''tt0133093''),
              Requested \<lparr> reqUrl = ''https://api.themoviedb.org/3/find/tt0133093'',
                          reqParams = [(''api_key'', Str ''k''), (''external_source'', Str ''imdb_id'')] \<rparr>])
   \<and> searchedLanguages
        [FindCalled (Str ''tt0133093''),
         Requested \<lparr> reqUrl = ''https://api.themoviedb.org/3/find/tt0133093'',
                     reqParams = [(''api_key'', Str ''k''), (''external_source'', Str ''imdb_id'')] \<rparr>]
      = []
   \<and> resolveTmdbId
        (\<lambda>trace req. Resolved (Obj [(''movie_results'', Arr [Obj [(''id'', Str ''603''), (''title'', Str ''The Matrix'')]]),
                                    (''results'', Arr [Obj [(''id'', Str ''603''), (''title'', Str ''The Matrix'')]])]))
        asciiRuntime []
        (Obj [(''apiKey'', Str ''k''), (''title'', Str ''The Matrix''),
              (''languageCandidates'', Arr [Str ''en-US'', Str ''fr-FR''])])
      = Inr (Obj [(''tmdbId'', Str ''603''), (''title'', Str ''The Matrix''),
                  (''releaseDate'', Null), (''language'', Str ''en-US''),
                  (''via'', Str ''title:en-US'')],
             [SearchCalled (Str ''en-US''),
              Requested \<lparr> reqUrl = ''https://api.themoviedb.org/3/search/movie'',
                          reqParams = [(''api_key'', Str ''k''), (''query'', Str ''The Matrix''),
                                       (''include_adult'', Bool False),
                                       (''language'', Str ''en-US'')] \<rparr>])"
  using resolveTmdbId_imdb_first
    [where net = "\<lambda>trace req. Resolved (Obj [(''movie_results'', Arr [Obj [(''id'', Str ''603''), (''title'', Str ''The Matrix'')]]),
                                    (''results'', Arr [Obj [(''id'', Str ''603''), (''title'', Str ''The Matrix'')]])])"
       and rt = asciiRuntime and trace = "[]" and ?trace0.0 = "[]"
       and args = "Obj [(''apiKey'', Str ''k''), (''imdbId'', Str ''tt0133093''),
              (''title'', Str ''The Matrix''),
              (''languageCandidates'', Arr [Str ''en-US'', Str ''fr-FR''])]"
       and ?args0.0 = "Obj [(''apiKey'', Str ''k''), (''title'', Str ''The Matrix''),
              (''languageCandidates'', Arr [Str ''en-US'', Str ''fr-FR''])]"]
  by (simp add: resolveTmdbId_def get_def nullish_def findTmdbIdByImdb_def Let_def
      TMDB_BASE_URL_def js_String_def asciiRuntime_def js_or_def imdbMatchOf_def titleOf_def
      releaseDateOf_def opt_get_def objectLiteral_def spreadObject_def candidatesOf_def
      orDefault_def searchTmdbByTitle_def searchMatchOf_def normalizeLanguageTag_def
      asciiTrim_def)

end
